theory Spec2Isabelle
  imports Main
begin

section \<open>Data model\<close>

text \<open>
  The outline is computed by \<^verbatim>\<open>src/src/parser.ts\<close> from a Babel syntax tree. The
  editor types (\<^verbatim>\<open>vscode.Position\<close>, \<^verbatim>\<open>vscode.Range\<close>,
  \<^verbatim>\<open>vscode.DocumentSymbol\<close>) are plain data here; JavaScript numbers that hold
  line numbers, columns and depths are integers.
\<close>

record LocPos =
  line :: int
  column :: int

record SourceLocation =
  loc_start :: LocPos
  loc_end :: LocPos

record Position =
  pos_line :: int
  pos_character :: int

record Range =
  range_start :: Position
  range_end :: Position

datatype SymbolKind = Class | Function | Namespace | Field

datatype DocumentSymbol =
  DocumentSymbol (name: string) (detail: string) (kind: SymbolKind)
    (srange: Range) (selectionRange: Range) (children: "DocumentSymbol list")

text \<open>
  The settings object; a key that is not set is \<open>None\<close> and
  \<^verbatim>\<open>config.get(key, default)\<close> falls back to the default.
\<close>

record Configuration =
  cfg_maxJSXDepth :: "int option"
  cfg_showFragments :: "bool option"
  cfg_showHooks :: "bool option"

definition config_get :: "'a option \<Rightarrow> 'a \<Rightarrow> 'a" where
  "config_get v dflt = (case v of None \<Rightarrow> dflt | Some x \<Rightarrow> x)"

text \<open>
  The tag of a markup element: \<^verbatim>\<open>JSXIdentifier\<close>, \<^verbatim>\<open>JSXMemberExpression\<close>
  (object, property) or \<^verbatim>\<open>JSXNamespacedName\<close> (namespace, name).
\<close>

datatype jsx_name =
    JSXIdentifier string
  | JSXMemberExpression jsx_name jsx_name
  | JSXNamespacedName string string

text \<open>
  The syntax tree, with the node kinds that the code tests and the fields that it reads.
  Every other kind of node is \<open>Other\<close> with its sub-nodes in visiting order. Wrapper
  nodes that no test of the code can tell from \<open>Other\<close> and that have one parent only
  (\<^verbatim>\<open>JSXOpeningElement\<close>, \<^verbatim>\<open>JSXAttribute\<close>, \<^verbatim>\<open>ClassBody\<close>) are folded
  into their parent: \<open>JSXElement loc tag attrs kids\<close> holds the expressions of the
  attributes and the children, \<open>ClassDeclaration loc id super members\<close> the members
  of the class body. \<open>loc\<close> is \<^verbatim>\<open>node.loc\<close>, which may be null.
\<close>

datatype node =
    Identifier string
  | StringLiteral string
  | MemberExpression node node
  | JSXElement "SourceLocation option" jsx_name "node list" "node list"
  | JSXFragment "SourceLocation option" "node list"
  | JSXText string
  | JSXExpressionContainer node
  | JSXSpreadChild node
  | JSXEmptyExpression
  | LogicalExpression string node node
  | ConditionalExpression node node node
  | CallExpression node "node list"
  | ArrowFunctionExpression "node list" node
  | FunctionExpression "node list" node
  | BlockStatement "node list"
  | ReturnStatement "node option"
  | FunctionDeclaration "SourceLocation option" "string option" "node list" node
  | VariableDeclarator "SourceLocation option" node "node option"
  | ClassDeclaration "SourceLocation option" "string option" "node option" "node list"
  | ClassMethod node "node list" node
  | Other "node list"

subsection \<open>Node kinds and fields\<close>

definition isJSXElement :: "node \<Rightarrow> bool" where
  "isJSXElement n = (case n of JSXElement _ _ _ _ \<Rightarrow> True | _ \<Rightarrow> False)"

definition isJSXFragment :: "node \<Rightarrow> bool" where
  "isJSXFragment n = (case n of JSXFragment _ _ \<Rightarrow> True | _ \<Rightarrow> False)"

definition isJSXExpressionContainer :: "node \<Rightarrow> bool" where
  "isJSXExpressionContainer n = (case n of JSXExpressionContainer _ \<Rightarrow> True | _ \<Rightarrow> False)"

definition isArrowFunctionExpression :: "node \<Rightarrow> bool" where
  "isArrowFunctionExpression n = (case n of ArrowFunctionExpression _ _ \<Rightarrow> True | _ \<Rightarrow> False)"

definition isFunctionExpression :: "node \<Rightarrow> bool" where
  "isFunctionExpression n = (case n of FunctionExpression _ _ \<Rightarrow> True | _ \<Rightarrow> False)"

text \<open>\<^verbatim>\<open>node.loc\<close> of the nodes whose location the code reads.\<close>

definition node_loc :: "node \<Rightarrow> SourceLocation option" where
  "node_loc n = (case n of
      JSXElement l _ _ _ \<Rightarrow> l
    | JSXFragment l _ \<Rightarrow> l
    | FunctionDeclaration l _ _ _ \<Rightarrow> l
    | VariableDeclarator l _ _ \<Rightarrow> l
    | ClassDeclaration l _ _ _ \<Rightarrow> l
    | _ \<Rightarrow> None)"

text \<open>
  The sub-nodes of a node in the order Babel's traversal visits them (its visitor keys):
  attributes before children, callee before arguments, parameters before the body, the
  superclass before the members.
\<close>

definition opt_list :: "'a option \<Rightarrow> 'a list" where
  "opt_list v = (case v of None \<Rightarrow> [] | Some x \<Rightarrow> [x])"

definition children_of :: "node \<Rightarrow> node list" where
  "children_of n = (case n of
      Identifier _ \<Rightarrow> []
    | StringLiteral _ \<Rightarrow> []
    | MemberExpression obj prop \<Rightarrow> [obj, prop]
    | JSXElement _ _ attrs kids \<Rightarrow> attrs @ kids
    | JSXFragment _ kids \<Rightarrow> kids
    | JSXText _ \<Rightarrow> []
    | JSXExpressionContainer e \<Rightarrow> [e]
    | JSXSpreadChild e \<Rightarrow> [e]
    | JSXEmptyExpression \<Rightarrow> []
    | LogicalExpression _ l r \<Rightarrow> [l, r]
    | ConditionalExpression c a b \<Rightarrow> [c, a, b]
    | CallExpression callee args \<Rightarrow> callee # args
    | ArrowFunctionExpression params body \<Rightarrow> params @ [body]
    | FunctionExpression params body \<Rightarrow> params @ [body]
    | BlockStatement stmts \<Rightarrow> stmts
    | ReturnStatement arg \<Rightarrow> opt_list arg
    | FunctionDeclaration _ _ params body \<Rightarrow> params @ [body]
    | VariableDeclarator _ ident init \<Rightarrow> ident # opt_list init
    | ClassDeclaration _ _ super members \<Rightarrow> opt_list super @ members
    | ClassMethod key params body \<Rightarrow> key # params @ [body]
    | Other subs \<Rightarrow> subs)"

lemma size_children_of: "m \<in> set (children_of n) \<Longrightarrow> size m < size n"
  by (cases n) (auto simp: children_of_def opt_list_def size_list_estimation'
      less_Suc_eq_le split: option.splits dest!: size_list_estimation'[where f = size and y = "size m", OF _ order_refl])


text \<open>
  All proper descendants of a node in visiting order (pre-order). A traversal started
  at a path (\<^verbatim>\<open>path.traverse\<close>, and \<^verbatim>\<open>traverse(ast, ...)\<close> alike) visits the
  descendants of its node and never the node itself.
\<close>

function descendants :: "node \<Rightarrow> node list" where
  "descendants n = concat (map (\<lambda>c. c # descendants c) (children_of n))"
  by pat_completeness auto
termination
  by (relation "measure size") (auto simp: size_children_of)

declare descendants.simps [simp del]

text \<open>
  The same traversal with, for every visited node, its chain of parent paths up to the
  node the traversal started from (nearest parent first, the start node left out).
\<close>

function traverse_paths :: "node list \<Rightarrow> node \<Rightarrow> (node \<times> node list) list" where
  "traverse_paths parents n =
     concat (map (\<lambda>c. (c, parents) # traverse_paths (c # parents) c) (children_of n))"
  by pat_completeness auto
termination
  by (relation "measure (\<lambda>(parents, n). size n)") (auto simp: size_children_of)

declare traverse_paths.simps [simp del]

section \<open>Names, tags and ranges\<close>

text \<open>The regular expressions \<^verbatim>\<open>/^[A-Z]/\<close> and \<^verbatim>\<open>/^use[A-Z]/\<close>.\<close>

definition isUpper :: "char \<Rightarrow> bool" where
  "isUpper c = (65 \<le> (of_char c :: nat) \<and> (of_char c :: nat) \<le> 90)"

fun test_upper :: "string \<Rightarrow> bool" where
  "test_upper (c # _) = isUpper c"
| "test_upper [] = False"

fun test_use_upper :: "string \<Rightarrow> bool" where
  "test_use_upper (a # b # c # d # _) =
     (a = CHR ''u'' \<and> b = CHR ''s'' \<and> c = CHR ''e'' \<and> isUpper d)"
| "test_use_upper _ = False"

fun join :: "string \<Rightarrow> string list \<Rightarrow> string" where
  "join sep [] = []"
| "join sep [p] = p"
| "join sep (p # q # ps) = p @ sep @ join sep (q # ps)"

text \<open>
  \<^verbatim>\<open>formatMemberExpression\<close>: the loop walks the object chain and puts each
  property name in front of the parts found so far.
\<close>

fun formatMemberExpression_loop :: "jsx_name \<Rightarrow> string list \<Rightarrow> string list" where
  "formatMemberExpression_loop (JSXMemberExpression obj prop) parts =
     formatMemberExpression_loop obj
       (case prop of JSXIdentifier pn \<Rightarrow> pn # parts | _ \<Rightarrow> parts)"
| "formatMemberExpression_loop (JSXIdentifier n) parts = n # parts"
| "formatMemberExpression_loop (JSXNamespacedName _ _) parts = parts"

definition formatMemberExpression :: "jsx_name \<Rightarrow> string" where
  "formatMemberExpression expr = join ''.'' (formatMemberExpression_loop expr [])"

definition getJSXTagName :: "node \<Rightarrow> string" where
  "getJSXTagName n = (case n of
      JSXFragment _ _ \<Rightarrow> ''<Fragment>''
    | JSXElement _ nm _ _ \<Rightarrow> (case nm of
          JSXIdentifier s \<Rightarrow> s
        | JSXMemberExpression _ _ \<Rightarrow> formatMemberExpression nm
        | JSXNamespacedName ns s \<Rightarrow> ns @ '':'' @ s)
    | _ \<Rightarrow> ''Unknown'')"

definition getJSXSymbolKind :: "string \<Rightarrow> SymbolKind" where
  "getJSXSymbolKind tagName =
     (if tagName = ''<Fragment>'' then Namespace
      else if test_upper tagName then Class
      else Field)"

definition getJSXChildren :: "node \<Rightarrow> node list" where
  "getJSXChildren n = (case n of
      JSXElement _ _ _ kids \<Rightarrow> kids
    | JSXFragment _ kids \<Rightarrow> kids
    | _ \<Rightarrow> [])"

text \<open>
  The document is its text. \<^verbatim>\<open>document.positionAt(offset)\<close> counts the line breaks
  before the offset and the characters after the last of them.
\<close>

type_synonym TextDocument = string

definition positionAt :: "TextDocument \<Rightarrow> nat \<Rightarrow> Position" where
  "positionAt document offset =
     (let prefix = take offset document in
      \<lparr>pos_line = int (length (filter (\<lambda>c. c = CHR 0x0A) prefix)),
       pos_character = int (length (takeWhile (\<lambda>c. c \<noteq> CHR 0x0A) (rev prefix)))\<rparr>)"

definition astRangeToVsCodeRange :: "SourceLocation option \<Rightarrow> TextDocument \<Rightarrow> Range" where
  "astRangeToVsCodeRange loc document = (case loc of
      None \<Rightarrow>
        (let first = positionAt document 0 in \<lparr>range_start = first, range_end = first\<rparr>)
    | Some l \<Rightarrow>
        (let start = \<lparr>pos_line = line (loc_start l) - 1, pos_character = column (loc_start l)\<rparr>;
             stop = \<lparr>pos_line = line (loc_end l) - 1, pos_character = column (loc_end l)\<rparr>
         in \<lparr>range_start = start, range_end = stop\<rparr>))"

section \<open>The markup tree\<close>

text \<open>
  \<^verbatim>\<open>findChildPath\<close> traverses the descendants of the parent and stops at the first
  whose node is the wanted one. Only the node of the path it returns is used afterwards,
  so the result is the node. Nodes of a parsed tree are distinct objects; here the
  comparison is on values, and what is found is equal to what was wanted.
\<close>

definition findChildPath :: "node \<Rightarrow> node \<Rightarrow> node option" where
  "findChildPath parentPath childNode = find (\<lambda>p. p = childNode) (descendants parentPath)"

definition findExpressionPath :: "node \<Rightarrow> node \<Rightarrow> node option" where
  "findExpressionPath parentPath exprNode = findChildPath parentPath exprNode"

lemma find_eq_Some: "find (\<lambda>p. p = c) xs = Some r \<longleftrightarrow> r = c \<and> c \<in> set xs"
  by (induction xs) auto

lemma findChildPath_Some [simp]:
  "findChildPath p c = Some r \<longleftrightarrow> r = c \<and> c \<in> set (descendants p)"
  by (simp add: findChildPath_def find_eq_Some)

lemma findChildPath_None [simp]:
  "findChildPath p c = None \<longleftrightarrow> c \<notin> set (descendants p)"
  by (simp add: findChildPath_def find_None_iff)


text \<open>\<^verbatim>\<open>parentSymbol.children.push(child)\<close>.\<close>

definition push_child :: "DocumentSymbol \<Rightarrow> DocumentSymbol \<Rightarrow> DocumentSymbol" where
  "push_child parentSymbol child =
     DocumentSymbol (name parentSymbol) (detail parentSymbol) (kind parentSymbol)
       (srange parentSymbol) (selectionRange parentSymbol) (children parentSymbol @ [child])"

text \<open>The symbol that \<^verbatim>\<open>addJSXSymbol\<close> creates for a markup node, still without children.\<close>

definition new_jsx_symbol :: "node \<Rightarrow> TextDocument \<Rightarrow> DocumentSymbol" where
  "new_jsx_symbol jsxPath document =
     (let tagName = getJSXTagName jsxPath;
          range = astRangeToVsCodeRange (node_loc jsxPath) document
      in DocumentSymbol tagName [] (getJSXSymbolKind tagName) range range [])"

text \<open>
  \<^verbatim>\<open>arg.body\<close> of a callback: the test
  \<^verbatim>\<open>arg.type === 'ArrowFunctionExpression' || arg.type === 'FunctionExpression'\<close>
  together with the read of the body.
\<close>

definition function_body :: "node \<Rightarrow> node option" where
  "function_body arg = (case arg of
      ArrowFunctionExpression _ body \<Rightarrow> Some body
    | FunctionExpression _ body \<Rightarrow> Some body
    | _ \<Rightarrow> None)"

lemma function_body_size: "function_body a = Some b \<Longrightarrow> size b < size a"
  by (cases a) (auto simp: function_body_def)

lemma size_descendants: "m \<in> set (descendants n) \<Longrightarrow> size m < size n"
proof (induction n arbitrary: m rule: descendants.induct)
  case (1 n)
  from "1.prems" obtain c where c: "c \<in> set (children_of n)" and m: "m = c \<or> m \<in> set (descendants c)"
    by (subst (asm) descendants.simps) auto
  from m show ?case
  proof
    assume "m = c" with c show ?thesis by (simp add: size_children_of)
  next
    assume "m \<in> set (descendants c)"
    with "1.IH"[OF c] have "size m < size c" by simp
    with size_children_of[OF c] show ?thesis by simp
  qed
qed

lemma size_getJSXChildren: "c \<in> set (getJSXChildren n) \<Longrightarrow> size c < size n"
  by (cases n) (auto simp: getJSXChildren_def less_Suc_eq_le dest!: size_list_estimation'[where f = size and y = "size c", OF _ order_refl])

lemma size_set_less: "x \<in> set xs \<Longrightarrow> size x < Suc (size_list size xs)"
  by (induction xs) auto

lemma size_callback_body:
  "x \<in> set xs \<Longrightarrow> function_body x = Some b \<Longrightarrow> size b < Suc (size_list size xs + k)"
  using size_set_less[of x xs] function_body_size[of x b] by simp

lemma size_callback_return:
  "x \<in> set xs \<Longrightarrow> function_body x = Some (BlockStatement ss) \<Longrightarrow>
   ReturnStatement (Some a) \<in> set ss \<Longrightarrow> size a < Suc (size_list size xs + k)"
  using size_callback_body[of x xs "BlockStatement ss" k]
    size_set_less[of "ReturnStatement (Some a)" ss] by simp

text \<open>
  The four functions that build the markup tree. Each takes the symbol it appends to
  and returns it updated; a \<^verbatim>\<open>for\<close> loop over a list is a \<open>fold\<close> whose state is
  that symbol. In \<^verbatim>\<open>addJSXSymbol\<close> the new symbol is pushed to its parent before its
  own children are added to it; nothing else is pushed to the parent in between, so the
  parent receives the new symbol with its children.
\<close>

function
  addJSXSymbol :: "node \<Rightarrow> DocumentSymbol \<Rightarrow> TextDocument \<Rightarrow> int \<Rightarrow> int \<Rightarrow> bool \<Rightarrow> DocumentSymbol" and
  processFragmentChildren :: "node \<Rightarrow> DocumentSymbol \<Rightarrow> TextDocument \<Rightarrow> int \<Rightarrow> int \<Rightarrow> bool \<Rightarrow> DocumentSymbol" and
  processJSXExpression :: "node \<Rightarrow> DocumentSymbol \<Rightarrow> TextDocument \<Rightarrow> int \<Rightarrow> int \<Rightarrow> bool \<Rightarrow> node \<Rightarrow> DocumentSymbol" and
  traverseCallExpressionForJSX :: "node \<Rightarrow> DocumentSymbol \<Rightarrow> TextDocument \<Rightarrow> int \<Rightarrow> int \<Rightarrow> bool \<Rightarrow> node \<Rightarrow> DocumentSymbol"
where
  "addJSXSymbol jsxPath parentSymbol document currentDepth maxDepth showFragments =
     (if currentDepth \<ge> maxDepth then parentSymbol
      else push_child parentSymbol
        (fold (\<lambda>child jsxSymbol.
            if isJSXElement child \<or> isJSXFragment child then
              (case findChildPath jsxPath child of
                 None \<Rightarrow> jsxSymbol
               | Some childPath \<Rightarrow>
                   if isJSXFragment child \<and> \<not> showFragments
                   then processFragmentChildren childPath jsxSymbol document
                          (currentDepth + 1) maxDepth showFragments
                   else addJSXSymbol childPath jsxSymbol document
                          (currentDepth + 1) maxDepth showFragments)
            else if isJSXExpressionContainer child then
              processJSXExpression child jsxSymbol document
                (currentDepth + 1) maxDepth showFragments jsxPath
            else jsxSymbol)
          (getJSXChildren jsxPath) (new_jsx_symbol jsxPath document)))"
| "processFragmentChildren fragmentPath parentSymbol document currentDepth maxDepth showFragments =
     fold (\<lambda>child parentSymbol.
         if isJSXElement child then
           (case findChildPath fragmentPath child of
              None \<Rightarrow> parentSymbol
            | Some childPath \<Rightarrow>
                addJSXSymbol childPath parentSymbol document currentDepth maxDepth showFragments)
         else if isJSXFragment child then
           (case findChildPath fragmentPath child of
              None \<Rightarrow> parentSymbol
            | Some childPath \<Rightarrow>
                processFragmentChildren childPath parentSymbol document
                  currentDepth maxDepth showFragments)
         else if isJSXExpressionContainer child then
           processJSXExpression child parentSymbol document
             currentDepth maxDepth showFragments fragmentPath
         else parentSymbol)
       (getJSXChildren fragmentPath) parentSymbol"
| "processJSXExpression expression parentSymbol document currentDepth maxDepth showFragments parentPath =
     (if currentDepth \<ge> maxDepth then parentSymbol
      else case expression of
        JSXExpressionContainer expr \<Rightarrow>
          (case expr of
             JSXEmptyExpression \<Rightarrow> parentSymbol
           | LogicalExpression operator left right \<Rightarrow>
               if isJSXElement right \<or> isJSXFragment right then
                 (case findExpressionPath parentPath right of
                    None \<Rightarrow> parentSymbol
                  | Some rightPath \<Rightarrow>
                      addJSXSymbol rightPath parentSymbol document
                        currentDepth maxDepth showFragments)
               else parentSymbol
           | ConditionalExpression test consequent alternate \<Rightarrow>
               (let parentSymbol1 =
                  (if isJSXElement consequent \<or> isJSXFragment consequent then
                     (case findExpressionPath parentPath consequent of
                        None \<Rightarrow> parentSymbol
                      | Some consequentPath \<Rightarrow>
                          addJSXSymbol consequentPath parentSymbol document
                            currentDepth maxDepth showFragments)
                   else parentSymbol)
                in
                  if isJSXElement alternate \<or> isJSXFragment alternate then
                    (case findExpressionPath parentPath alternate of
                       None \<Rightarrow> parentSymbol1
                     | Some alternatePath \<Rightarrow>
                         addJSXSymbol alternatePath parentSymbol1 document
                           currentDepth maxDepth showFragments)
                  else parentSymbol1)
           | CallExpression callee args \<Rightarrow>
               traverseCallExpressionForJSX expr parentSymbol document
                 currentDepth maxDepth showFragments parentPath
           | _ \<Rightarrow> parentSymbol)
      | _ \<Rightarrow> parentSymbol)"
| "traverseCallExpressionForJSX callExpr parentSymbol document currentDepth maxDepth showFragments parentPath =
     (case callExpr of
        CallExpression callee args \<Rightarrow>
          fold (\<lambda>arg parentSymbol.
              case function_body arg of
                None \<Rightarrow> parentSymbol
              | Some body \<Rightarrow>
                  if isJSXElement body \<or> isJSXFragment body then
                    (case findExpressionPath parentPath body of
                       None \<Rightarrow> parentSymbol
                     | Some bodyPath \<Rightarrow>
                         addJSXSymbol bodyPath parentSymbol document
                           currentDepth maxDepth showFragments)
                  else
                    (case body of
                       BlockStatement stmts \<Rightarrow>
                         fold (\<lambda>statement parentSymbol.
                             case statement of
                               ReturnStatement (Some argument) \<Rightarrow>
                                 if isJSXElement argument \<or> isJSXFragment argument then
                                   (case findExpressionPath parentPath argument of
                                      None \<Rightarrow> parentSymbol
                                    | Some argPath \<Rightarrow>
                                        addJSXSymbol argPath parentSymbol document
                                          currentDepth maxDepth showFragments)
                                 else parentSymbol
                             | _ \<Rightarrow> parentSymbol)
                           stmts parentSymbol
                     | _ \<Rightarrow> parentSymbol))
            args parentSymbol
      | _ \<Rightarrow> parentSymbol)"
  by pat_completeness auto


termination
  apply (relation "measure (\<lambda>x. case x of
      Inl (Inl a) \<Rightarrow> size (fst a) | Inl (Inr a) \<Rightarrow> size (fst a)
    | Inr (Inl a) \<Rightarrow> size (fst a) | Inr (Inr a) \<Rightarrow> size (fst a))")
  apply (auto simp: findExpressionPath_def size_callback_body size_callback_return
      dest: size_getJSXChildren size_descendants function_body_size size_set_less)
  done


section \<open>Classification of declarations\<close>

text \<open>
  \<^verbatim>\<open>hasJSXReturn\<close>: a traversal of the descendants that sets a flag at every markup
  element and every fragment.
\<close>

definition hasJSXReturn :: "node \<Rightarrow> bool" where
  "hasJSXReturn functionPath =
     fold (\<lambda>p hasJSX. if isJSXElement p then True else if isJSXFragment p then True else hasJSX)
       (descendants functionPath) False"

definition isFunctionComponent :: "node \<Rightarrow> bool" where
  "isFunctionComponent path = (case path of
      FunctionDeclaration _ ident _ _ \<Rightarrow>
        (case ident of None \<Rightarrow> False | Some nm \<Rightarrow> test_upper nm \<and> hasJSXReturn path)
    | _ \<Rightarrow> False)"

definition isCustomHook :: "node \<Rightarrow> bool" where
  "isCustomHook path = (case path of
      FunctionDeclaration _ ident _ _ \<Rightarrow>
        (case ident of None \<Rightarrow> False | Some nm \<Rightarrow> test_use_upper nm)
    | _ \<Rightarrow> False)"

text \<open>
  \<^verbatim>\<open>superClass.matchesPattern('A.B')\<close>: Babel collects the property and the object of a
  member expression and compares each with its part of the pattern; a part is matched by
  an identifier of that name or by a string literal of that value (so \<^verbatim>\<open>React.Component\<close>
  and \<^verbatim>\<open>React['Component']\<close> both match), and an object that is itself a member
  expression makes the chain too long. \<^verbatim>\<open>superClass.isIdentifier({ name })\<close> is the test
  for a bare identifier. Both are false when there is no superclass.
\<close>

definition pattern_part :: "node \<Rightarrow> string option" where
  "pattern_part n = (case n of
      Identifier nm \<Rightarrow> Some nm
    | StringLiteral v \<Rightarrow> Some v
    | _ \<Rightarrow> None)"

definition matchesPattern :: "node option \<Rightarrow> string \<Rightarrow> string \<Rightarrow> bool" where
  "matchesPattern p obj prop = (case p of
      Some (MemberExpression object property) \<Rightarrow>
        pattern_part object = Some obj \<and> pattern_part property = Some prop
    | _ \<Rightarrow> False)"

definition isIdentifierNamed :: "node option \<Rightarrow> string \<Rightarrow> bool" where
  "isIdentifierNamed p nm = (p = Some (Identifier nm))"

definition isClassComponent :: "node \<Rightarrow> bool" where
  "isClassComponent path = (case path of
      ClassDeclaration _ ident superClass _ \<Rightarrow>
        (case ident of
           None \<Rightarrow> False
         | Some nm \<Rightarrow>
             if \<not> test_upper nm then False
             else matchesPattern superClass ''React'' ''Component''
                \<or> matchesPattern superClass ''React'' ''PureComponent''
                \<or> isIdentifierNamed superClass ''Component''
                \<or> isIdentifierNamed superClass ''PureComponent'')
    | _ \<Rightarrow> False)"

definition getComponentName :: "node \<Rightarrow> string" where
  "getComponentName path = (case path of
      FunctionDeclaration _ ident _ _ \<Rightarrow>
        (case ident of None \<Rightarrow> ''Anonymous'' | Some nm \<Rightarrow> if nm = [] then ''Anonymous'' else nm)
    | ClassDeclaration _ ident _ _ \<Rightarrow>
        (case ident of None \<Rightarrow> ''Anonymous'' | Some nm \<Rightarrow> if nm = [] then ''Anonymous'' else nm)
    | VariableDeclarator _ ident _ \<Rightarrow>
        (case ident of Identifier nm \<Rightarrow> nm | _ \<Rightarrow> ''Unknown'')
    | _ \<Rightarrow> ''Unknown'')"

section \<open>The body of a component and its markup tree\<close>

text \<open>The loop of \<^verbatim>\<open>getFunctionBody\<close> over the members of a class.\<close>

fun getFunctionBody_methods :: "node list \<Rightarrow> node option" where
  "getFunctionBody_methods [] = None"
| "getFunctionBody_methods (method # rest) =
     (case method of
        ClassMethod key _ body \<Rightarrow>
          (case key of
             Identifier nm \<Rightarrow> if nm = ''render'' then Some body else getFunctionBody_methods rest
           | _ \<Rightarrow> getFunctionBody_methods rest)
      | _ \<Rightarrow> getFunctionBody_methods rest)"

definition getFunctionBody :: "node \<Rightarrow> node option" where
  "getFunctionBody componentPath = (case componentPath of
      FunctionDeclaration _ _ _ body \<Rightarrow> Some body
    | ClassDeclaration _ _ _ members \<Rightarrow> getFunctionBody_methods members
    | VariableDeclarator _ _ init \<Rightarrow>
        (case init of
           None \<Rightarrow> None
         | Some i \<Rightarrow>
             if isArrowFunctionExpression i \<or> isFunctionExpression i then function_body i
             else None)
    | _ \<Rightarrow> None)"

text \<open>
  \<^verbatim>\<open>isTopLevelJSX\<close> walks the parent paths of a markup node until it reaches the body
  path; its argument here is that chain of parents, the body left out.
\<close>

fun isTopLevelJSX :: "node list \<Rightarrow> bool" where
  "isTopLevelJSX [] = True"
| "isTopLevelJSX (current # rest) =
     (if isJSXElement current \<or> isJSXFragment current then False else isTopLevelJSX rest)"

text \<open>
  The visitor of \<^verbatim>\<open>buildJSXTree\<close>. A visited path is a node with its chain of parents;
  paths are objects, and the set \<^verbatim>\<open>processedPaths\<close> holds them by identity, which is
  the position of the path in the traversal.
\<close>

definition buildJSXTree_visitor ::
  "TextDocument \<Rightarrow> int \<Rightarrow> bool \<Rightarrow> nat \<times> node \<times> node list \<Rightarrow>
   DocumentSymbol \<times> nat list \<Rightarrow> DocumentSymbol \<times> nat list" where
  "buildJSXTree_visitor document maxDepth showFrags jsxPath st =
     (case jsxPath of (ident, jsxNode, parents) \<Rightarrow>
      case st of (parentSymbol, processedPaths) \<Rightarrow>
        if isJSXElement jsxNode then
          (if ident \<notin> set processedPaths \<and> isTopLevelJSX parents
           then (addJSXSymbol jsxNode parentSymbol document 0 maxDepth showFrags,
                 ident # processedPaths)
           else st)
        else if isJSXFragment jsxNode then
          (if ident \<notin> set processedPaths \<and> isTopLevelJSX parents
           then ((if showFrags
                  then addJSXSymbol jsxNode parentSymbol document 0 maxDepth showFrags
                  else processFragmentChildren jsxNode parentSymbol document 0 maxDepth showFrags),
                 ident # processedPaths)
           else st)
        else st)"

definition buildJSXTree ::
  "node \<Rightarrow> DocumentSymbol \<Rightarrow> TextDocument \<Rightarrow> Configuration \<Rightarrow> int \<Rightarrow> DocumentSymbol" where
  "buildJSXTree componentPath parentSymbol document config maxDepth =
     (case getFunctionBody componentPath of
        None \<Rightarrow> parentSymbol
      | Some bodyPath \<Rightarrow>
          (let showFrags = config_get (cfg_showFragments config) True in
           fst (fold (buildJSXTree_visitor document maxDepth showFrags)
                  (enumerate 0 (traverse_paths [] bodyPath)) (parentSymbol, []))))"

datatype component_type = TFunction | TArrow | TClass

definition createComponentSymbol ::
  "node \<Rightarrow> TextDocument \<Rightarrow> component_type \<Rightarrow> Configuration \<Rightarrow> DocumentSymbol" where
  "createComponentSymbol path document type config =
     (let nm = getComponentName path;
          range = astRangeToVsCodeRange (node_loc path) document;
          knd = (if type = TClass then Class else Function);
          dtl = (if type = TClass then ''Class Component'' else ''Function Component'');
          symbol = DocumentSymbol nm dtl knd range range [];
          maxDepth = config_get (cfg_maxJSXDepth config) 2
      in buildJSXTree path symbol document config maxDepth)"

definition createHookSymbol :: "node \<Rightarrow> TextDocument \<Rightarrow> DocumentSymbol" where
  "createHookSymbol path document =
     (let nm = getComponentName path;
          range = astRangeToVsCodeRange (node_loc path) document
      in DocumentSymbol nm ''Hook'' Function range range [])"

section \<open>The traversal of the file\<close>

text \<open>
  The three visitors of \<^verbatim>\<open>getSymbolsFromDocument\<close>. Each returns the list
  \<^verbatim>\<open>symbols\<close> after its pushes, and whether it called \<^verbatim>\<open>path.skip()\<close>.
\<close>

definition visit_FunctionDeclaration ::
  "Configuration \<Rightarrow> TextDocument \<Rightarrow> node \<Rightarrow> DocumentSymbol list \<Rightarrow> DocumentSymbol list \<times> bool" where
  "visit_FunctionDeclaration config document path symbols =
     (if isFunctionComponent path then
        (symbols @ [createComponentSymbol path document TFunction config], True)
      else if isCustomHook path then
        ((if config_get (cfg_showHooks config) True
          then symbols @ [createHookSymbol path document] else symbols), True)
      else (symbols, False))"

definition visit_VariableDeclarator ::
  "Configuration \<Rightarrow> TextDocument \<Rightarrow> node \<Rightarrow> DocumentSymbol list \<Rightarrow> DocumentSymbol list \<times> bool" where
  "visit_VariableDeclarator config document path symbols = (case path of
      VariableDeclarator _ ident init \<Rightarrow>
        (case ident of
           Identifier nm \<Rightarrow>
             (case init of
                None \<Rightarrow> (symbols, False)
              | Some i \<Rightarrow>
                  if \<not> isArrowFunctionExpression i \<and> \<not> isFunctionExpression i then (symbols, False)
                  else if test_upper nm \<and> hasJSXReturn i then
                    (symbols @ [createComponentSymbol path document TArrow config], True)
                  else if test_use_upper nm then
                    ((if config_get (cfg_showHooks config) True
                      then symbols @ [createHookSymbol path document] else symbols), True)
                  else (symbols, False))
         | _ \<Rightarrow> (symbols, False))
    | _ \<Rightarrow> (symbols, False))"

definition visit_ClassDeclaration ::
  "Configuration \<Rightarrow> TextDocument \<Rightarrow> node \<Rightarrow> DocumentSymbol list \<Rightarrow> DocumentSymbol list \<times> bool" where
  "visit_ClassDeclaration config document path symbols =
     (if isClassComponent path then
        (symbols @ [createComponentSymbol path document TClass config], True)
      else (symbols, False))"

definition visit ::
  "Configuration \<Rightarrow> TextDocument \<Rightarrow> node \<Rightarrow> DocumentSymbol list \<Rightarrow> DocumentSymbol list \<times> bool" where
  "visit config document path symbols = (case path of
      FunctionDeclaration _ _ _ _ \<Rightarrow> visit_FunctionDeclaration config document path symbols
    | VariableDeclarator _ _ _ \<Rightarrow> visit_VariableDeclarator config document path symbols
    | ClassDeclaration _ _ _ _ \<Rightarrow> visit_ClassDeclaration config document path symbols
    | _ \<Rightarrow> (symbols, False))"

text \<open>
  Babel's traversal: a node is visited before its sub-nodes, and the sub-nodes of a
  skipped node are not visited.
\<close>

function traverse_node ::
  "Configuration \<Rightarrow> TextDocument \<Rightarrow> node \<Rightarrow> DocumentSymbol list \<Rightarrow> DocumentSymbol list" where
  "traverse_node config document path symbols =
     (case visit config document path symbols of
        (symbols', skip) \<Rightarrow>
          if skip then symbols'
          else fold (traverse_node config document) (children_of path) symbols')"
  by pat_completeness auto
termination
  by (relation "measure (\<lambda>(config, document, path, symbols). size path)")
    (auto simp: size_children_of)

declare traverse_node.simps [simp del]

text \<open>
  \<^verbatim>\<open>getSymbolsFromDocument\<close>. The parser is a parameter; \<open>None\<close> is a parse error.
  The traversal does not visit the root of the tree (the \<^verbatim>\<open>File\<close> node).
\<close>

definition getSymbolsFromDocument ::
  "(TextDocument \<Rightarrow> node option) \<Rightarrow> Configuration \<Rightarrow> TextDocument \<Rightarrow> DocumentSymbol list" where
  "getSymbolsFromDocument parse config document =
     (case parse document of
        None \<Rightarrow> []
      | Some ast \<Rightarrow> fold (traverse_node config document) (children_of ast) [])"


section \<open>The loops of the markup tree, one step at a time\<close>

text \<open>
  The bodies of the \<^verbatim>\<open>for\<close> loops of \<^verbatim>\<open>addJSXSymbol\<close>,
  \<^verbatim>\<open>processFragmentChildren\<close> and \<^verbatim>\<open>traverseCallExpressionForJSX\<close>, named so
  that properties of one iteration can be stated. The lemmas \<open>addJSXSymbol_unfold\<close>,
  \<open>processFragmentChildren_unfold\<close> and \<open>traverseCallExpressionForJSX_unfold\<close>
  show that the functions run exactly these bodies.
\<close>

definition addJSXSymbol_body ::
  "node \<Rightarrow> TextDocument \<Rightarrow> int \<Rightarrow> int \<Rightarrow> bool \<Rightarrow> node \<Rightarrow> DocumentSymbol \<Rightarrow> DocumentSymbol" where
  "addJSXSymbol_body jsxPath document currentDepth maxDepth showFrags child jsxSymbol =
     (if isJSXElement child \<or> isJSXFragment child then
        (case findChildPath jsxPath child of
           None \<Rightarrow> jsxSymbol
         | Some childPath \<Rightarrow>
             if isJSXFragment child \<and> \<not> showFrags
             then processFragmentChildren childPath jsxSymbol document
                    (currentDepth + 1) maxDepth showFrags
             else addJSXSymbol childPath jsxSymbol document
                    (currentDepth + 1) maxDepth showFrags)
      else if isJSXExpressionContainer child then
        processJSXExpression child jsxSymbol document
          (currentDepth + 1) maxDepth showFrags jsxPath
      else jsxSymbol)"

definition processFragmentChildren_body ::
  "node \<Rightarrow> TextDocument \<Rightarrow> int \<Rightarrow> int \<Rightarrow> bool \<Rightarrow> node \<Rightarrow> DocumentSymbol \<Rightarrow> DocumentSymbol" where
  "processFragmentChildren_body fragmentPath document currentDepth maxDepth showFrags child parentSymbol =
     (if isJSXElement child then
        (case findChildPath fragmentPath child of
           None \<Rightarrow> parentSymbol
         | Some childPath \<Rightarrow>
             addJSXSymbol childPath parentSymbol document currentDepth maxDepth showFrags)
      else if isJSXFragment child then
        (case findChildPath fragmentPath child of
           None \<Rightarrow> parentSymbol
         | Some childPath \<Rightarrow>
             processFragmentChildren childPath parentSymbol document
               currentDepth maxDepth showFrags)
      else if isJSXExpressionContainer child then
        processJSXExpression child parentSymbol document
          currentDepth maxDepth showFrags fragmentPath
      else parentSymbol)"

definition traverseCall_statement ::
  "node \<Rightarrow> TextDocument \<Rightarrow> int \<Rightarrow> int \<Rightarrow> bool \<Rightarrow> node \<Rightarrow> DocumentSymbol \<Rightarrow> DocumentSymbol" where
  "traverseCall_statement parentPath document currentDepth maxDepth showFrags statement parentSymbol =
     (case statement of
        ReturnStatement (Some argument) \<Rightarrow>
          if isJSXElement argument \<or> isJSXFragment argument then
            (case findExpressionPath parentPath argument of
               None \<Rightarrow> parentSymbol
             | Some argPath \<Rightarrow>
                 addJSXSymbol argPath parentSymbol document currentDepth maxDepth showFrags)
          else parentSymbol
      | _ \<Rightarrow> parentSymbol)"

definition traverseCall_arg ::
  "node \<Rightarrow> TextDocument \<Rightarrow> int \<Rightarrow> int \<Rightarrow> bool \<Rightarrow> node \<Rightarrow> DocumentSymbol \<Rightarrow> DocumentSymbol" where
  "traverseCall_arg parentPath document currentDepth maxDepth showFrags arg parentSymbol =
     (case function_body arg of
        None \<Rightarrow> parentSymbol
      | Some body \<Rightarrow>
          if isJSXElement body \<or> isJSXFragment body then
            (case findExpressionPath parentPath body of
               None \<Rightarrow> parentSymbol
             | Some bodyPath \<Rightarrow>
                 addJSXSymbol bodyPath parentSymbol document currentDepth maxDepth showFrags)
          else
            (case body of
               BlockStatement stmts \<Rightarrow>
                 fold (traverseCall_statement parentPath document currentDepth maxDepth showFrags)
                   stmts parentSymbol
             | _ \<Rightarrow> parentSymbol))"

declare addJSXSymbol.simps [simp del] processFragmentChildren.simps [simp del]
  processJSXExpression.simps [simp del] traverseCallExpressionForJSX.simps [simp del]

lemma addJSXSymbol_unfold:
  "addJSXSymbol n s doc d M sf =
     (if M \<le> d then s
      else push_child s
        (fold (addJSXSymbol_body n doc d M sf) (getJSXChildren n) (new_jsx_symbol n doc)))"
  by (simp add: addJSXSymbol.simps[of n s doc d M sf] addJSXSymbol_body_def[abs_def])

lemma processFragmentChildren_unfold:
  "processFragmentChildren n s doc d M sf =
     fold (processFragmentChildren_body n doc d M sf) (getJSXChildren n) s"
  by (simp add: processFragmentChildren.simps[of n s doc d M sf]
      processFragmentChildren_body_def[abs_def])

lemma traverseCallExpressionForJSX_unfold:
  "traverseCallExpressionForJSX e s doc d M sf pp =
     (case e of
        CallExpression callee args \<Rightarrow> fold (traverseCall_arg pp doc d M sf) args s
      | _ \<Rightarrow> s)"
  unfolding traverseCall_arg_def[abs_def] traverseCall_statement_def[abs_def]
  by (rule traverseCallExpressionForJSX.simps)


section \<open>Facts about the traversal and the tree builder\<close>

subsection \<open>Descendants\<close>

lemma child_in_descendants: "c \<in> set (children_of n) \<Longrightarrow> c \<in> set (descendants n)"
  by (subst descendants.simps) auto

lemma descendants_child:
  "c \<in> set (children_of n) \<Longrightarrow> m \<in> set (descendants c) \<Longrightarrow> m \<in> set (descendants n)"
  by (subst descendants.simps) auto

lemma descendants_cases:
  "m \<in> set (descendants n) \<Longrightarrow>
   \<exists>c \<in> set (children_of n). m = c \<or> m \<in> set (descendants c)"
  by (subst (asm) descendants.simps) auto

lemma descendants_trans:
  "m \<in> set (descendants n) \<Longrightarrow> k \<in> set (descendants m) \<Longrightarrow> k \<in> set (descendants n)"
proof (induction n arbitrary: m rule: descendants.induct)
  case (1 n)
  from descendants_cases[OF "1.prems"(1)] obtain c
    where c: "c \<in> set (children_of n)" and m: "m = c \<or> m \<in> set (descendants c)" by blast
  from m have "k \<in> set (descendants c)"
  proof
    assume "m = c" with "1.prems"(2) show ?thesis by simp
  next
    assume "m \<in> set (descendants c)"
    then show ?thesis using "1.IH"[OF c _ "1.prems"(2)] by simp
  qed
  with c show ?case by (rule descendants_child)
qed

lemma getJSXChildren_children_of: "c \<in> set (getJSXChildren n) \<Longrightarrow> c \<in> set (children_of n)"
  by (cases n) (auto simp: getJSXChildren_def children_of_def)

lemma getJSXChildren_descendants: "c \<in> set (getJSXChildren n) \<Longrightarrow> c \<in> set (descendants n)"
  by (rule child_in_descendants) (rule getJSXChildren_children_of)

lemma findChildPath_found: "c \<in> set (descendants p) \<Longrightarrow> findChildPath p c = Some c"
  by simp

lemma findExpressionPath_found: "c \<in> set (descendants p) \<Longrightarrow> findExpressionPath p c = Some c"
  by (simp add: findExpressionPath_def)

lemma findExpressionPath_cases:
  "findExpressionPath p c = None \<or> findExpressionPath p c = Some c"
  by (cases "c \<in> set (descendants p)") (simp_all add: findExpressionPath_def)

lemma findChildPath_cases: "findChildPath p c = None \<or> findChildPath p c = Some c"
  by (cases "c \<in> set (descendants p)") simp_all

subsection \<open>Invariants of the tree builder\<close>

text \<open>
  A markup symbol is well placed at depth \<open>d\<close> when \<open>d\<close> is below the limit, its detail
  string is empty and its children are well placed one level deeper.
\<close>

fun markup_ok :: "int \<Rightarrow> int \<Rightarrow> DocumentSymbol \<Rightarrow> bool" where
  "markup_ok M d (DocumentSymbol nm dt k r sr cs) =
     (d < M \<and> dt = [] \<and> list_all (markup_ok M (d + 1)) cs)"

definition kids_ok :: "int \<Rightarrow> int \<Rightarrow> DocumentSymbol \<Rightarrow> bool" where
  "kids_ok M d s = list_all (markup_ok M d) (children s)"

lemma fold_invariant:
  "(\<And>x s. x \<in> set xs \<Longrightarrow> I s \<Longrightarrow> I (f x s)) \<Longrightarrow> I s0 \<Longrightarrow> I (fold f xs s0)"
  by (induction xs arbitrary: s0) auto

lemma kids_ok_push:
  "kids_ok M d s \<Longrightarrow> d < M \<Longrightarrow> kids_ok M (d + 1) c \<Longrightarrow> detail c = [] \<Longrightarrow>
   kids_ok M d (push_child s c)"
  by (cases c) (simp add: kids_ok_def push_child_def)

lemma traverseCall_invariant:
  assumes IH: "\<And>m s. size m < size e \<Longrightarrow> I s \<Longrightarrow> I (addJSXSymbol m s doc d M sf)"
    and s: "I s"
  shows "I (traverseCallExpressionForJSX e s doc d M sf pp)"
proof (cases e)
  case (CallExpression callee args)
  have stmt: "I (traverseCall_statement pp doc d M sf st s')"
    if "st \<in> set stmts" "a \<in> set args" "function_body a = Some (BlockStatement stmts)" "I s'"
    for st stmts a s'
  proof (cases st)
    case (ReturnStatement arg)
    show ?thesis
    proof (cases arg)
      case None
      then show ?thesis using that ReturnStatement by (simp add: traverseCall_statement_def)
    next
      case (Some x)
      have "size x < size e"
        using size_callback_return[of a args stmts x "size callee"] that ReturnStatement Some
        by (simp add: CallExpression)
      then show ?thesis
        using that(4) ReturnStatement Some findExpressionPath_cases[of pp x] IH[of x s']
        by (auto simp: traverseCall_statement_def)
    qed
  qed (use that in \<open>simp_all add: traverseCall_statement_def\<close>)
  have arg: "I (traverseCall_arg pp doc d M sf a s')" if "a \<in> set args" "I s'" for a s'
  proof (cases "function_body a")
    case None
    then show ?thesis using that by (simp add: traverseCall_arg_def)
  next
    case (Some body)
    have sz: "size body < size e"
      using size_callback_body[of a args body "size callee"] that Some by (simp add: CallExpression)
    show ?thesis
    proof (cases "isJSXElement body \<or> isJSXFragment body")
      case True
      then show ?thesis
        using that(2) Some findExpressionPath_cases[of pp body] IH[OF sz, of s']
        by (auto simp: traverseCall_arg_def)
    next
      case False
      show ?thesis
      proof (cases body)
        case (BlockStatement stmts)
        have "I (fold (traverseCall_statement pp doc d M sf) stmts s')"
          by (rule fold_invariant) (use that Some BlockStatement stmt in auto)
        then show ?thesis using False Some BlockStatement by (simp add: traverseCall_arg_def)
      qed (use False Some that in \<open>simp_all add: traverseCall_arg_def\<close>)
    qed
  qed
  have "I (fold (traverseCall_arg pp doc d M sf) args s)"
    by (rule fold_invariant) (use arg s in auto)
  then show ?thesis by (simp add: traverseCallExpressionForJSX_unfold CallExpression)
qed (use s in \<open>simp_all add: traverseCallExpressionForJSX_unfold\<close>)


lemma processJSXExpression_invariant:
  assumes IH: "\<And>m s. size m < size e \<Longrightarrow> I s \<Longrightarrow> I (addJSXSymbol m s doc d M sf)"
    and s: "I s"
  shows "I (processJSXExpression e s doc d M sf pp)"
proof (cases "M \<le> d")
  case True
  then show ?thesis using s by (simp add: processJSXExpression.simps)
next
  case False
  note deep = this
  show ?thesis
  proof (cases e)
    case (JSXExpressionContainer x)
    show ?thesis
    proof (cases x)
      case (LogicalExpression op l r)
      have "size r < size e" by (simp add: JSXExpressionContainer LogicalExpression)
      then show ?thesis
        using deep s findExpressionPath_cases[of pp r] IH[of r s]
        by (auto simp: processJSXExpression.simps
            JSXExpressionContainer LogicalExpression)
    next
      case (ConditionalExpression t c a)
      let ?s1 = "if isJSXElement c \<or> isJSXFragment c
                 then (case findExpressionPath pp c of None \<Rightarrow> s
                       | Some p \<Rightarrow> addJSXSymbol p s doc d M sf) else s"
      have szc: "size c < size e" and sza: "size a < size e"
        by (simp_all add: JSXExpressionContainer ConditionalExpression)
      have s1: "I ?s1"
        using s findExpressionPath_cases[of pp c] IH[OF szc, of s] by auto
      have "I (if isJSXElement a \<or> isJSXFragment a
               then (case findExpressionPath pp a of None \<Rightarrow> ?s1
                     | Some p \<Rightarrow> addJSXSymbol p ?s1 doc d M sf) else ?s1)"
        using s1 findExpressionPath_cases[of pp a] IH[OF sza, of ?s1] by auto
      then show ?thesis
        using deep
        by (simp add: processJSXExpression.simps
            JSXExpressionContainer ConditionalExpression Let_def)
    next
      case (CallExpression callee args)
      have "I (traverseCallExpressionForJSX x s doc d M sf pp)"
      proof (rule traverseCall_invariant[where I = I])
        fix m :: node and s' assume "size m < size x" "I s'"
        then show "I (addJSXSymbol m s' doc d M sf)"
          using IH[of m s'] by (simp add: JSXExpressionContainer)
      qed (rule s)
      then show ?thesis
        using deep
        by (simp add: processJSXExpression.simps
            JSXExpressionContainer CallExpression)
    qed (use deep s in \<open>simp_all add: processJSXExpression.simps
            JSXExpressionContainer\<close>)
  qed (use deep s in \<open>simp_all add: processJSXExpression.simps\<close>)
qed


subsection \<open>The builder only appends\<close>

definition append_children :: "DocumentSymbol \<Rightarrow> DocumentSymbol list \<Rightarrow> DocumentSymbol" where
  "append_children s ks =
     DocumentSymbol (name s) (detail s) (kind s) (srange s) (selectionRange s) (children s @ ks)"

definition appends :: "(DocumentSymbol \<Rightarrow> DocumentSymbol) \<Rightarrow> bool" where
  "appends f = (\<exists>ks. \<forall>s. f s = append_children s ks)"

lemma append_children_Nil [simp]: "append_children s [] = s"
  by (cases s) (simp add: append_children_def)

lemma append_children_append [simp]:
  "append_children (append_children s ks) ls = append_children s (ks @ ls)"
  by (simp add: append_children_def)

lemma append_children_sel [simp]:
  "name (append_children s ks) = name s" "detail (append_children s ks) = detail s"
  "kind (append_children s ks) = kind s" "srange (append_children s ks) = srange s"
  "selectionRange (append_children s ks) = selectionRange s"
  "children (append_children s ks) = children s @ ks"
  by (simp_all add: append_children_def)

lemma push_child_append: "push_child s c = append_children s [c]"
  by (simp add: push_child_def append_children_def)

lemma appends_id: "appends (\<lambda>s. s)"
  unfolding appends_def by (rule exI[where x = "[]"]) simp

lemma appends_comp: "appends f \<Longrightarrow> appends g \<Longrightarrow> appends (\<lambda>s. g (f s))"
  unfolding appends_def
proof -
  assume "\<exists>ks. \<forall>s. f s = append_children s ks" "\<exists>ks. \<forall>s. g s = append_children s ks"
  then obtain ks ls where "\<forall>s. f s = append_children s ks" "\<forall>s. g s = append_children s ls"
    by blast
  then have "\<forall>s. g (f s) = append_children s (ks @ ls)" by simp
  then show "\<exists>ks. \<forall>s. g (f s) = append_children s ks" by blast
qed

lemma appends_push: "appends (\<lambda>s. push_child s c)"
  unfolding appends_def by (rule exI[where x = "[c]"]) (simp add: push_child_append)

lemma appends_if:
  "(b \<Longrightarrow> appends f) \<Longrightarrow> (\<not> b \<Longrightarrow> appends g) \<Longrightarrow> appends (\<lambda>s. if b then f s else g s)"
  by (cases b) simp_all

lemma appends_fold: "(\<And>x. x \<in> set xs \<Longrightarrow> appends (F x)) \<Longrightarrow> appends (fold F xs)"
proof (induction xs)
  case Nil
  show ?case using appends_id by (simp add: id_def)
next
  case (Cons x xs)
  have "appends (F x)" using Cons.prems[of x] by simp
  moreover have "appends (fold F xs)" using Cons by simp
  ultimately have "appends (\<lambda>s. fold F xs (F x s))" by (rule appends_comp)
  then show ?case by (simp add: comp_def)
qed

lemma appends_option:
  "(v = None \<Longrightarrow> appends f) \<Longrightarrow> (\<And>x. v = Some x \<Longrightarrow> appends (g x)) \<Longrightarrow>
   appends (\<lambda>s. case v of None \<Rightarrow> f s | Some x \<Rightarrow> g x s)"
  by (cases v) simp_all

lemma appends_same:
  assumes "appends f" shows "name (f s) = name s" "detail (f s) = detail s"
    "kind (f s) = kind s" "srange (f s) = srange s" "selectionRange (f s) = selectionRange s"
  using assms unfolding appends_def by auto

lemma appends_children:
  assumes "appends f" "children t = []"
  shows "children (f s) = children s @ children (f t)"
  using assms unfolding appends_def by auto

lemma appends_addJSXSymbol: "appends (\<lambda>s. addJSXSymbol n s doc d M sf)"
  by (simp only: addJSXSymbol_unfold) (intro appends_if appends_id appends_push)

lemma appends_lookup_add:
  "appends (\<lambda>s. case findExpressionPath pp x of None \<Rightarrow> s | Some p \<Rightarrow> addJSXSymbol p s doc d M sf)"
  by (intro appends_option appends_id appends_addJSXSymbol)

lemma appends_statement: "appends (traverseCall_statement pp doc d M sf st)"
  unfolding traverseCall_statement_def[abs_def]
  by (cases st) (auto simp: appends_id intro!: appends_option appends_if appends_lookup_add)

lemma appends_arg: "appends (traverseCall_arg pp doc d M sf a)"
proof -
  have body: "appends (\<lambda>s. case b of
        BlockStatement stmts \<Rightarrow> fold (traverseCall_statement pp doc d M sf) stmts s
      | _ \<Rightarrow> s)" for b
    by (cases b) (auto simp: appends_id intro!: appends_fold appends_statement)
  show ?thesis
    unfolding traverseCall_arg_def[abs_def]
    by (intro appends_option appends_id appends_if appends_lookup_add body)
qed

lemma appends_traverseCall: "appends (\<lambda>s. traverseCallExpressionForJSX e s doc d M sf pp)"
  by (cases e) (auto simp: traverseCallExpressionForJSX_unfold appends_id
      intro!: appends_fold appends_arg)

lemma appends_processJSXExpression: "appends (\<lambda>s. processJSXExpression e s doc d M sf pp)"
proof (cases "M \<le> d")
  case True
  then show ?thesis by (simp add: processJSXExpression.simps appends_id)
next
  case False
  note deep = this
  show ?thesis
  proof (cases e)
    case (JSXExpressionContainer x)
    show ?thesis
    proof (cases x)
      case (LogicalExpression op l r)
      show ?thesis
        unfolding JSXExpressionContainer LogicalExpression
        by (simp only: processJSXExpression.simps node.case deep if_False)
          (intro appends_if appends_id appends_lookup_add)
    next
      case (ConditionalExpression t c a)
      let ?f = "\<lambda>s. if isJSXElement c \<or> isJSXFragment c
                 then (case findExpressionPath pp c of None \<Rightarrow> s
                       | Some p \<Rightarrow> addJSXSymbol p s doc d M sf) else s"
      let ?g = "\<lambda>s. if isJSXElement a \<or> isJSXFragment a
                 then (case findExpressionPath pp a of None \<Rightarrow> s
                       | Some p \<Rightarrow> addJSXSymbol p s doc d M sf) else s"
      have "appends ?f" "appends ?g"
        by (intro appends_if appends_id appends_lookup_add)+
      then have "appends (\<lambda>s. ?g (?f s))"
        by (rule appends_comp)
      moreover have "(\<lambda>s. processJSXExpression e s doc d M sf pp) = (\<lambda>s. ?g (?f s))"
        using deep unfolding JSXExpressionContainer ConditionalExpression
        by (simp add: processJSXExpression.simps Let_def)
      ultimately show ?thesis by simp
    next
      case (CallExpression callee args)
      show ?thesis
        using deep unfolding JSXExpressionContainer CallExpression
        by (simp add: processJSXExpression.simps appends_traverseCall)
    qed (simp_all add: deep JSXExpressionContainer processJSXExpression.simps appends_id)
  qed (simp_all add: deep processJSXExpression.simps appends_id)
qed

lemma appends_processFragmentChildren: "appends (\<lambda>s. processFragmentChildren n s doc d M sf)"
proof (induction n rule: measure_induct_rule[where f = size])
  case (less n)
  have "appends (processFragmentChildren_body n doc d M sf c)" if "c \<in> set (getJSXChildren n)" for c
    unfolding processFragmentChildren_body_def[abs_def]
    apply (intro appends_if appends_option appends_id appends_addJSXSymbol
        appends_processJSXExpression)
    using that less.IH by (auto dest: size_getJSXChildren)
  then have "appends (fold (processFragmentChildren_body n doc d M sf) (getJSXChildren n))"
    by (rule appends_fold)
  then show ?case by (simp add: processFragmentChildren_unfold[abs_def])
qed

lemma appends_addJSXSymbol_body: "appends (addJSXSymbol_body n doc d M sf c)"
  unfolding addJSXSymbol_body_def[abs_def]
  by (intro appends_if appends_option appends_id appends_addJSXSymbol
      appends_processJSXExpression appends_processFragmentChildren)

lemma appends_processFragmentChildren_body: "appends (processFragmentChildren_body n doc d M sf c)"
  unfolding processFragmentChildren_body_def[abs_def]
  by (intro appends_if appends_option appends_id appends_addJSXSymbol
      appends_processJSXExpression appends_processFragmentChildren)

subsection \<open>Depth invariant\<close>

lemma builder_kids_ok:
  "(\<forall>s d. kids_ok M d s \<longrightarrow> kids_ok M d (addJSXSymbol n s doc d M sf)) \<and>
   (\<forall>s d. kids_ok M d s \<longrightarrow> kids_ok M d (processFragmentChildren n s doc d M sf))"
proof (induction n rule: measure_induct_rule[where f = size])
  case (less n)
  have IHa: "kids_ok M d (addJSXSymbol m s doc d M sf)"
    if "size m < size n" "kids_ok M d s" for m s d
    using less.IH that by blast
  have IHf: "kids_ok M d (processFragmentChildren m s doc d M sf)"
    if "size m < size n" "kids_ok M d s" for m s d
    using less.IH that by blast
  have pje: "kids_ok M d (processJSXExpression c s doc d M sf n)"
    if "c \<in> set (getJSXChildren n)" "kids_ok M d s" for c s d
  proof (rule processJSXExpression_invariant[where I = "kids_ok M d"])
    fix m :: node and s' assume "size m < size c" "kids_ok M d s'"
    then show "kids_ok M d (addJSXSymbol m s' doc d M sf)"
      using IHa[of m d s'] size_getJSXChildren[OF that(1)] by simp
  qed (rule that)
  have body_a: "kids_ok M (d + 1) (addJSXSymbol_body n doc d M sf c s)"
    if "c \<in> set (getJSXChildren n)" "kids_ok M (d + 1) s" for c s d
    using that IHa[of c "d + 1" s] IHf[of c "d + 1" s]
      pje[of c "d + 1" s] size_getJSXChildren[of c n]
    by (auto simp: addJSXSymbol_body_def getJSXChildren_descendants findChildPath_found)
  have body_f: "kids_ok M d (processFragmentChildren_body n doc d M sf c s)"
    if "c \<in> set (getJSXChildren n)" "kids_ok M d s" for c s d
    using that IHa[of c d s] IHf[of c d s]
      pje[of c d s] size_getJSXChildren[of c n]
    by (auto simp: processFragmentChildren_body_def getJSXChildren_descendants findChildPath_found)
  have add: "kids_ok M d (addJSXSymbol n s doc d M sf)" if s: "kids_ok M d s" for s d
  proof (cases "M \<le> d")
    case True
    then show ?thesis using s by (simp add: addJSXSymbol_unfold)
  next
    case False
    let ?t = "fold (addJSXSymbol_body n doc d M sf) (getJSXChildren n) (new_jsx_symbol n doc)"
    have "kids_ok M (d + 1) ?t"
      by (rule fold_invariant) (use body_a in \<open>auto simp: kids_ok_def new_jsx_symbol_def Let_def\<close>)
    moreover have "detail ?t = []"
      using appends_same(2)[OF appends_fold[of "getJSXChildren n" "addJSXSymbol_body n doc d M sf"],
          OF appends_addJSXSymbol_body, of "new_jsx_symbol n doc"]
      by (simp add: new_jsx_symbol_def Let_def)
    ultimately show ?thesis
      using False s by (simp add: addJSXSymbol_unfold kids_ok_push)
  qed
  have frag: "kids_ok M d (processFragmentChildren n s doc d M sf)" if s: "kids_ok M d s" for s d
    unfolding processFragmentChildren_unfold
    by (rule fold_invariant) (use body_f s in auto)
  from add frag show ?case by blast
qed


subsection \<open>Evaluation on concrete trees\<close>

text \<open>
  The recursion equations, one instance for each kind of node, so that the simplifier
  unfolds a function only at a node that is given.
\<close>

lemmas descendants_eval =
  descendants.simps[of "Identifier s"] descendants.simps[of "StringLiteral s"]
  descendants.simps[of "MemberExpression a b"]
  descendants.simps[of "JSXElement l nm xs ys"] descendants.simps[of "JSXFragment l xs"]
  descendants.simps[of "JSXText s"] descendants.simps[of "JSXExpressionContainer a"]
  descendants.simps[of "JSXSpreadChild a"] descendants.simps[of "JSXEmptyExpression"]
  descendants.simps[of "LogicalExpression s a b"] descendants.simps[of "ConditionalExpression a b c"]
  descendants.simps[of "CallExpression a xs"] descendants.simps[of "ArrowFunctionExpression xs a"]
  descendants.simps[of "FunctionExpression xs a"] descendants.simps[of "BlockStatement xs"]
  descendants.simps[of "ReturnStatement oa"] descendants.simps[of "FunctionDeclaration l os xs a"]
  descendants.simps[of "VariableDeclarator l a oa"] descendants.simps[of "ClassDeclaration l os oa xs"]
  descendants.simps[of "ClassMethod a xs b"] descendants.simps[of "Other xs"]
  for s a b c l nm xs ys oa os

lemmas traverse_paths_eval =
  traverse_paths.simps[of ps "Identifier s"] traverse_paths.simps[of ps "StringLiteral s"]
  traverse_paths.simps[of ps "MemberExpression a b"]
  traverse_paths.simps[of ps "JSXElement l nm xs ys"] traverse_paths.simps[of ps "JSXFragment l xs"]
  traverse_paths.simps[of ps "JSXText s"] traverse_paths.simps[of ps "JSXExpressionContainer a"]
  traverse_paths.simps[of ps "JSXSpreadChild a"] traverse_paths.simps[of ps "JSXEmptyExpression"]
  traverse_paths.simps[of ps "LogicalExpression s a b"] traverse_paths.simps[of ps "ConditionalExpression a b c"]
  traverse_paths.simps[of ps "CallExpression a xs"] traverse_paths.simps[of ps "ArrowFunctionExpression xs a"]
  traverse_paths.simps[of ps "FunctionExpression xs a"] traverse_paths.simps[of ps "BlockStatement xs"]
  traverse_paths.simps[of ps "ReturnStatement oa"] traverse_paths.simps[of ps "FunctionDeclaration l os xs a"]
  traverse_paths.simps[of ps "VariableDeclarator l a oa"] traverse_paths.simps[of ps "ClassDeclaration l os oa xs"]
  traverse_paths.simps[of ps "ClassMethod a xs b"] traverse_paths.simps[of ps "Other xs"]
  for ps s a b c l nm xs ys oa os

lemmas traverse_node_eval =
  traverse_node.simps[of cf d "Identifier s"] traverse_node.simps[of cf d "StringLiteral s"]
  traverse_node.simps[of cf d "MemberExpression a b"]
  traverse_node.simps[of cf d "JSXElement l nm xs ys"] traverse_node.simps[of cf d "JSXFragment l xs"]
  traverse_node.simps[of cf d "JSXText s"] traverse_node.simps[of cf d "JSXExpressionContainer a"]
  traverse_node.simps[of cf d "JSXSpreadChild a"] traverse_node.simps[of cf d "JSXEmptyExpression"]
  traverse_node.simps[of cf d "LogicalExpression s a b"] traverse_node.simps[of cf d "ConditionalExpression a b c"]
  traverse_node.simps[of cf d "CallExpression a xs"] traverse_node.simps[of cf d "ArrowFunctionExpression xs a"]
  traverse_node.simps[of cf d "FunctionExpression xs a"] traverse_node.simps[of cf d "BlockStatement xs"]
  traverse_node.simps[of cf d "ReturnStatement oa"] traverse_node.simps[of cf d "FunctionDeclaration l os xs a"]
  traverse_node.simps[of cf d "VariableDeclarator l a oa"] traverse_node.simps[of cf d "ClassDeclaration l os oa xs"]
  traverse_node.simps[of cf d "ClassMethod a xs b"] traverse_node.simps[of cf d "Other xs"]
  for cf d s a b c l nm xs ys oa os

lemmas builder_eval =
  addJSXSymbol.simps[of "JSXElement l nm xs ys"] addJSXSymbol.simps[of "JSXFragment l xs"]
  processFragmentChildren.simps[of "JSXElement l nm xs ys"] processFragmentChildren.simps[of "JSXFragment l xs"]
  processJSXExpression.simps[of "JSXExpressionContainer a"]
  traverseCallExpressionForJSX.simps[of "CallExpression a xs"]
  for l nm xs ys a

lemmas outline_eval =
  descendants_eval traverse_paths_eval traverse_node_eval builder_eval
  children_of_def opt_list_def isJSXElement_def isJSXFragment_def isJSXExpressionContainer_def
  isArrowFunctionExpression_def isFunctionExpression_def node_loc_def config_get_def
  getJSXTagName_def getJSXSymbolKind_def getJSXChildren_def positionAt_def
  astRangeToVsCodeRange_def findChildPath_def findExpressionPath_def push_child_def
  new_jsx_symbol_def function_body_def hasJSXReturn_def isFunctionComponent_def isCustomHook_def
  pattern_part_def matchesPattern_def isIdentifierNamed_def isClassComponent_def
  getComponentName_def
  getFunctionBody_def buildJSXTree_visitor_def buildJSXTree_def createComponentSymbol_def
  createHookSymbol_def visit_FunctionDeclaration_def visit_VariableDeclarator_def
  visit_ClassDeclaration_def visit_def getSymbolsFromDocument_def isUpper_def
  formatMemberExpression_def enumerate_eq_zip Let_def




section \<open>The depth limit\<close>

text \<open>
  The depths of the markup symbols below a component or hook symbol: its children are at
  depth 0, their children at depth 1, and so on.
\<close>

fun node_depths :: "int \<Rightarrow> DocumentSymbol \<Rightarrow> int list" where
  "node_depths d (DocumentSymbol nm dt k r sr cs) = d # concat (map (node_depths (d + 1)) cs)"

definition markup_depths :: "DocumentSymbol \<Rightarrow> int list" where
  "markup_depths s = concat (map (node_depths 0) (children s))"

lemma markup_ok_depths: "markup_ok M d c \<Longrightarrow> k \<in> set (node_depths d c) \<Longrightarrow> k < M"
proof (induction c arbitrary: d k)
  case (DocumentSymbol nm dt kd r sr cs)
  then show ?case by (fastforce simp: list_all_iff)
qed

lemma kids_ok_depths: "kids_ok M 0 s \<Longrightarrow> k \<in> set (markup_depths s) \<Longrightarrow> k < M"
  by (auto simp: kids_ok_def markup_depths_def list_all_iff dest: markup_ok_depths)

lemma kids_ok_zero: "kids_ok M d s \<Longrightarrow> M \<le> d \<Longrightarrow> children s = []"
  by (cases "children s"; cases "hd (children s)") (auto simp: kids_ok_def)

lemma buildJSXTree_visitor_kids_ok:
  "kids_ok M 0 (fst st) \<Longrightarrow> kids_ok M 0 (fst (buildJSXTree_visitor doc M sf p st))"
  using builder_kids_ok[of M _ doc sf]
  by (cases p; cases st) (auto simp: buildJSXTree_visitor_def)

lemma buildJSXTree_kids_ok: "kids_ok M 0 s \<Longrightarrow> kids_ok M 0 (buildJSXTree path s doc cfg M)"
proof (cases "getFunctionBody path")
  case None
  then show "kids_ok M 0 s \<Longrightarrow> ?thesis" by (simp add: buildJSXTree_def)
next
  case (Some body)
  assume s: "kids_ok M 0 s"
  have "kids_ok M 0 (fst (fold (buildJSXTree_visitor doc M sf) ps (s, [])))" for sf ps
    by (rule fold_invariant[where I = "\<lambda>st. kids_ok M 0 (fst st)"])
      (use s buildJSXTree_visitor_kids_ok in auto)
  then show ?thesis using Some by (simp add: buildJSXTree_def Let_def)
qed

lemma createComponentSymbol_kids_ok:
  "kids_ok (config_get (cfg_maxJSXDepth cfg) 2) 0 (createComponentSymbol path doc ty cfg)"
  unfolding createComponentSymbol_def Let_def
  by (rule buildJSXTree_kids_ok) (simp add: kids_ok_def)

lemma createHookSymbol_kids_ok: "kids_ok M 0 (createHookSymbol path doc)"
  by (simp add: createHookSymbol_def kids_ok_def Let_def)

lemma visit_kids_ok:
  "list_all (kids_ok (config_get (cfg_maxJSXDepth cfg) 2) 0) symbols \<Longrightarrow>
   list_all (kids_ok (config_get (cfg_maxJSXDepth cfg) 2) 0) (fst (visit cfg doc path symbols))"
  by (cases path)
    (auto simp: visit_def visit_FunctionDeclaration_def visit_VariableDeclarator_def
      visit_ClassDeclaration_def createComponentSymbol_kids_ok createHookSymbol_kids_ok
      split: node.splits option.splits)

lemma traverse_node_kids_ok:
  "list_all (kids_ok (config_get (cfg_maxJSXDepth cfg) 2) 0) symbols \<Longrightarrow>
   list_all (kids_ok (config_get (cfg_maxJSXDepth cfg) 2) 0) (traverse_node cfg doc path symbols)"
proof (induction cfg doc path symbols rule: traverse_node.induct)
  case (1 config document path symbols)
  obtain symbols' skip where v: "visit config document path symbols = (symbols', skip)"
    by (cases "visit config document path symbols")
  have s': "list_all (kids_ok (config_get (cfg_maxJSXDepth config) 2) 0) symbols'"
    using visit_kids_ok[OF "1.prems", of document path] v by simp
  show ?case
  proof (cases skip)
    case True
    then show ?thesis using v s' by (simp add: traverse_node.simps[of config document path symbols])
  next
    case False
    have "list_all (kids_ok (config_get (cfg_maxJSXDepth config) 2) 0)
            (fold (traverse_node config document) (children_of path) symbols')"
      by (rule fold_invariant) (use "1.IH"[OF v[symmetric] False] s' in auto)
    then show ?thesis using v False
      by (simp add: traverse_node.simps[of config document path symbols])
  qed
qed

lemma getSymbolsFromDocument_kids_ok:
  "s \<in> set (getSymbolsFromDocument parse cfg doc) \<Longrightarrow>
   kids_ok (config_get (cfg_maxJSXDepth cfg) 2) 0 s"
proof (cases "parse doc")
  case None
  then show "s \<in> set (getSymbolsFromDocument parse cfg doc) \<Longrightarrow> ?thesis"
    by (simp add: getSymbolsFromDocument_def)
next
  case (Some ast)
  assume s: "s \<in> set (getSymbolsFromDocument parse cfg doc)"
  have "list_all (kids_ok (config_get (cfg_maxJSXDepth cfg) 2) 0)
          (fold (traverse_node cfg doc) (children_of ast) [])"
    by (rule fold_invariant) (use traverse_node_kids_ok in auto)
  then show ?thesis using s Some by (simp add: getSymbolsFromDocument_def list_all_iff)
qed

text \<open>
  Claim C2. For every file and every configuration, every markup symbol of every
  produced tree sits at a depth (the children of a component are at depth 0) below the
  configured \<^verbatim>\<open>maxJSXDepth\<close>; with a limit of 0 a component or hook symbol has no
  children.
\<close>

theorem C2_depth_invariant:
  "\<forall>s \<in> set (getSymbolsFromDocument parse config document).
     (\<forall>k \<in> set (markup_depths s). k < config_get (cfg_maxJSXDepth config) 2) \<and>
     (config_get (cfg_maxJSXDepth config) 2 = 0 \<longrightarrow> children s = [])"
proof
  fix s assume "s \<in> set (getSymbolsFromDocument parse config document)"
  then have ok: "kids_ok (config_get (cfg_maxJSXDepth config) 2) 0 s"
    by (rule getSymbolsFromDocument_kids_ok)
  show "(\<forall>k \<in> set (markup_depths s). k < config_get (cfg_maxJSXDepth config) 2) \<and>
     (config_get (cfg_maxJSXDepth config) 2 = 0 \<longrightarrow> children s = [])"
    using kids_ok_depths[OF ok] kids_ok_zero[OF ok] by auto
qed


subsection \<open>Example files\<close>

text \<open>
  Syntax trees of small files, as the parser returns them (\<^verbatim>\<open>File\<close>, \<^verbatim>\<open>Program\<close>
  and statement wrappers are \<open>Other\<close>), with no location information, so that every
  range is the zero-width range at the start of the document.
\<close>

definition zero_range :: Range where
  "zero_range = \<lparr>range_start = \<lparr>pos_line = 0, pos_character = 0\<rparr>,
                 range_end = \<lparr>pos_line = 0, pos_character = 0\<rparr>\<rparr>"

definition element :: "string \<Rightarrow> node list \<Rightarrow> node" where
  "element tag kids = JSXElement None (JSXIdentifier tag) [] kids"

definition markup :: "string \<Rightarrow> DocumentSymbol list \<Rightarrow> DocumentSymbol" where
  "markup tag kids = DocumentSymbol tag [] (getJSXSymbolKind tag) zero_range zero_range kids"

definition depth2 :: Configuration where
  "depth2 = \<lparr>cfg_maxJSXDepth = Some 2, cfg_showFragments = None, cfg_showHooks = None\<rparr>"

text \<open>
  \<^verbatim>\<open>class TodoList extends React.Component { render() { return <div><h1/><ul><li/><li/></ul></div> } }\<close>
\<close>

definition scenario_B :: node where
  "scenario_B = Other [Other [
     ClassDeclaration None (Some ''TodoList'')
       (Some (MemberExpression (Identifier ''React'') (Identifier ''Component'')))
       [ClassMethod (Identifier ''render'') []
          (BlockStatement [ReturnStatement (Some
             (element ''div''
                [element ''h1'' [],
                 element ''ul'' [element ''li'' [], element ''li'' []]]))])]]]"

lemmas example_defs = zero_range_def element_def markup_def depth2_def

lemma scenario_B_outline:
  "getSymbolsFromDocument (\<lambda>_. Some scenario_B) depth2 [] =
     [DocumentSymbol ''TodoList'' ''Class Component'' Class zero_range zero_range
        [markup ''div'' [markup ''h1'' [], markup ''ul'' []]]]"
  by (simp add: scenario_B_def example_defs outline_eval)

theorem C2_depth_invariant_witness:
  "getSymbolsFromDocument (\<lambda>_. Some scenario_B) depth2 [] =
     [DocumentSymbol ''TodoList'' ''Class Component'' Class zero_range zero_range
        [markup ''div'' [markup ''h1'' [], markup ''ul'' []]]] \<and>
   markup_depths (DocumentSymbol ''TodoList'' ''Class Component'' Class zero_range zero_range
        [markup ''div'' [markup ''h1'' [], markup ''ul'' []]]) = [0, 1, 1] \<and>
   list_all (\<lambda>k. k < config_get (cfg_maxJSXDepth depth2) 2)
     (markup_depths (DocumentSymbol ''TodoList'' ''Class Component'' Class zero_range zero_range
        [markup ''div'' [markup ''h1'' [], markup ''ul'' []]]))"
  using C2_depth_invariant[of "\<lambda>_. Some scenario_B" depth2 "[]"]
  by (simp add: scenario_B_outline markup_depths_def markup_def list_all_iff)



section \<open>Claims about single declarations and single markup nodes\<close>

text \<open>
  The symbol that \<^verbatim>\<open>addJSXSymbol\<close> pushes for a markup node at a depth below the
  limit: the new symbol after the loop over the children of the node.
\<close>

definition jsx_symbol :: "node \<Rightarrow> TextDocument \<Rightarrow> int \<Rightarrow> int \<Rightarrow> bool \<Rightarrow> DocumentSymbol" where
  "jsx_symbol n doc d M sf =
     fold (addJSXSymbol_body n doc d M sf) (getJSXChildren n) (new_jsx_symbol n doc)"

lemma addJSXSymbol_push:
  "addJSXSymbol n s doc d M sf = (if M \<le> d then s else push_child s (jsx_symbol n doc d M sf))"
  by (simp add: addJSXSymbol_unfold jsx_symbol_def)

lemma jsx_symbol_same:
  "name (jsx_symbol n doc d M sf) = getJSXTagName n"
  "detail (jsx_symbol n doc d M sf) = []"
  "kind (jsx_symbol n doc d M sf) = getJSXSymbolKind (getJSXTagName n)"
  "srange (jsx_symbol n doc d M sf) = astRangeToVsCodeRange (node_loc n) doc"
  "selectionRange (jsx_symbol n doc d M sf) = astRangeToVsCodeRange (node_loc n) doc"
  using appends_same[OF appends_fold[of "getJSXChildren n" "addJSXSymbol_body n doc d M sf"],
      OF appends_addJSXSymbol_body, of "new_jsx_symbol n doc"]
  by (simp_all add: jsx_symbol_def new_jsx_symbol_def Let_def)

subsection \<open>Arrow components with an expression body\<close>

text \<open>
  \<^verbatim>\<open>const Button = ({label}) => (<button><span>{label}</span></button>)\<close>, and the same
  component written with a block body and a \<^verbatim>\<open>return\<close>.
\<close>

definition scenario_A :: node where
  "scenario_A = Other [Other [Other [
     VariableDeclarator None (Identifier ''Button'')
       (Some (ArrowFunctionExpression [Other [Identifier ''label'']]
          (element ''button''
             [element ''span'' [JSXExpressionContainer (Identifier ''label'')]])))]]]"

definition scenario_A_block :: node where
  "scenario_A_block = Other [Other [Other [
     VariableDeclarator None (Identifier ''Button'')
       (Some (ArrowFunctionExpression [Other [Identifier ''label'']]
          (BlockStatement [ReturnStatement (Some
             (element ''button''
                [element ''span'' [JSXExpressionContainer (Identifier ''label'')]]))])))]]]"

text \<open>
  Claim C1. The claim expects the outline of the first file, with a depth limit of 2, to
  be the component \<open>Button\<close> with the single child \<open>button\<close>, which has the single child
  \<open>span\<close>. The body path of the component is the \<open>button\<close> element itself, and the traversal
  of \<^verbatim>\<open>buildJSXTree\<close> visits only what is below the body path: the code returns
  \<open>Button\<close> with the single child \<open>span\<close>.
\<close>

theorem C1_expression_body_outline:
  "getSymbolsFromDocument (\<lambda>_. Some scenario_A) depth2 [] =
     [DocumentSymbol ''Button'' ''Function Component'' Function zero_range zero_range
        [markup ''span'' []]]"
  by (simp add: scenario_A_def example_defs outline_eval)

text \<open>With a block body the tree is rooted at \<open>button\<close>.\<close>

lemma block_body_outline:
  "getSymbolsFromDocument (\<lambda>_. Some scenario_A_block) depth2 [] =
     [DocumentSymbol ''Button'' ''Function Component'' Function zero_range zero_range
        [markup ''button'' [markup ''span'' []]]]"
  by (simp add: scenario_A_block_def example_defs outline_eval)

subsection \<open>Classes without a render method\<close>

definition is_render_method :: "node \<Rightarrow> bool" where
  "is_render_method m = (case m of ClassMethod key _ _ \<Rightarrow> key = Identifier ''render'' | _ \<Rightarrow> False)"

lemma getFunctionBody_methods_None:
  "\<not> list_ex is_render_method members \<Longrightarrow> getFunctionBody_methods members = None"
  by (induction members) (auto simp: is_render_method_def split: node.splits)

lemma test_upper_nonempty: "test_upper nm \<Longrightarrow> nm \<noteq> []"
  by (cases nm) auto

definition class_without_render :: node where
  "class_without_render =
     ClassDeclaration None (Some ''Panel'')
       (Some (MemberExpression (Identifier ''React'') (Identifier ''Component'')))
       [ClassMethod (Identifier ''componentDidMount'') [] (BlockStatement [])]"

text \<open>
  Claim C3, as amended. A class declaration with an uppercase name and a qualifying
  superclass but no method named \<open>render\<close> is emitted as a class component symbol
  without children (and its subtree is skipped).
\<close>

theorem C3_class_without_render:
  assumes "test_upper nm"
    and "matchesPattern super ''React'' ''Component''
       \<or> matchesPattern super ''React'' ''PureComponent''
       \<or> isIdentifierNamed super ''Component''
       \<or> isIdentifierNamed super ''PureComponent''"
    and "\<not> list_ex is_render_method members"
  shows "visit config document (ClassDeclaration loc (Some nm) super members) symbols =
     (symbols @ [DocumentSymbol nm ''Class Component'' Class
        (astRangeToVsCodeRange loc document) (astRangeToVsCodeRange loc document) []], True)"
  using assms getFunctionBody_methods_None[OF assms(3)] test_upper_nonempty[OF assms(1)]
  by (simp add: visit_def visit_ClassDeclaration_def isClassComponent_def
      createComponentSymbol_def buildJSXTree_def getFunctionBody_def getComponentName_def
      node_loc_def Let_def)

text \<open>
  The claim as written says that no symbol is emitted; for
  \<^verbatim>\<open>class Panel extends React.Component { componentDidMount() {} }\<close> one is.
\<close>

theorem C3_class_without_render_counterexample:
  "getSymbolsFromDocument (\<lambda>_. Some (Other [Other [class_without_render]])) depth2 [] =
     [DocumentSymbol ''Panel'' ''Class Component'' Class zero_range zero_range []]"
  by (simp add: class_without_render_def example_defs outline_eval)

theorem C3_class_without_render_witness:
  "test_upper ''Panel'' \<and>
   matchesPattern (Some (MemberExpression (Identifier ''React'') (Identifier ''Component'')))
     ''React'' ''Component'' \<and>
   \<not> list_ex is_render_method [ClassMethod (Identifier ''componentDidMount'') [] (BlockStatement [])] \<and>
   visit depth2 [] class_without_render [] =
     ([DocumentSymbol ''Panel'' ''Class Component'' Class zero_range zero_range []], True)"
  using C3_class_without_render[of "''Panel''"
      "Some (MemberExpression (Identifier ''React'') (Identifier ''Component''))"
      "[ClassMethod (Identifier ''componentDidMount'') [] (BlockStatement [])]"
      depth2 "[]" None "[]"]
  by (simp add: class_without_render_def is_render_method_def matchesPattern_def
      pattern_part_def isUpper_def
      astRangeToVsCodeRange_def positionAt_def zero_range_def Let_def)


subsection \<open>Functions without markup\<close>

definition contains_markup :: "node \<Rightarrow> bool" where
  "contains_markup n = list_ex (\<lambda>m. isJSXElement m \<or> isJSXFragment m) (descendants n)"

definition function_binding :: "node \<Rightarrow> bool" where
  "function_binding path = (case path of
      FunctionDeclaration _ _ _ _ \<Rightarrow> True
    | VariableDeclarator _ _ init \<Rightarrow>
        (case init of None \<Rightarrow> False
         | Some i \<Rightarrow> isArrowFunctionExpression i \<or> isFunctionExpression i)
    | _ \<Rightarrow> False)"

definition bound_name :: "node \<Rightarrow> string option" where
  "bound_name path = (case path of
      FunctionDeclaration _ ident _ _ \<Rightarrow> ident
    | VariableDeclarator _ ident _ \<Rightarrow> (case ident of Identifier nm \<Rightarrow> Some nm | _ \<Rightarrow> None)
    | _ \<Rightarrow> None)"

lemma fold_flag:
  "fold (\<lambda>p h. if P p then True else if Q p then True else h) xs b
     = (b \<or> list_ex (\<lambda>m. P m \<or> Q m) xs)"
  by (induction xs arbitrary: b) auto

lemma hasJSXReturn_iff: "hasJSXReturn n = contains_markup n"
  by (simp add: hasJSXReturn_def contains_markup_def fold_flag)

lemma contains_markup_child:
  "c \<in> set (children_of n) \<Longrightarrow> contains_markup c \<Longrightarrow> contains_markup n"
  by (auto simp: contains_markup_def list_ex_iff intro: descendants_child)

text \<open>
  Claim C8. A function declaration, or a variable declarator whose initializer is a
  function or arrow expression, with no markup element or fragment anywhere below it and
  a name that is not a hook name, gets no symbol, whatever the first letter of its name:
  its visitor leaves the result list as it is and does not skip, so the result of the
  traversal of the declaration is that of its sub-nodes alone.
\<close>

theorem C8_no_markup_no_symbol:
  assumes "function_binding path"
    and "\<not> contains_markup path"
    and "\<forall>nm. bound_name path = Some nm \<longrightarrow> \<not> test_use_upper nm"
  shows "visit config document path symbols = (symbols, False) \<and>
     traverse_node config document path symbols =
       fold (traverse_node config document) (children_of path) symbols"
proof -
  have v: "visit config document path symbols = (symbols, False)"
  proof (cases path)
    case (FunctionDeclaration l ident params body)
    then show ?thesis
      using assms
      by (auto simp: visit_def visit_FunctionDeclaration_def isFunctionComponent_def
          isCustomHook_def hasJSXReturn_iff bound_name_def split: option.splits)
  next
    case (VariableDeclarator l ident init)
    then obtain i where i: "init = Some i" using assms(1)
      by (auto simp: function_binding_def split: option.splits)
    have "i \<in> set (children_of path)"
      by (simp add: VariableDeclarator i children_of_def opt_list_def)
    then have "\<not> contains_markup i" using assms(2) contains_markup_child by blast
    then show ?thesis
      using assms(3) VariableDeclarator i
      by (auto simp: visit_def visit_VariableDeclarator_def hasJSXReturn_iff bound_name_def
          split: node.splits)
  qed (use assms(1) in \<open>simp_all add: function_binding_def\<close>)
  then show ?thesis by (simp add: traverse_node.simps[of config document path symbols])
qed

definition plain_function :: node where
  "plain_function =
     FunctionDeclaration None (Some ''Helper'') []
       (BlockStatement [ReturnStatement (Some (Other []))])"

theorem C8_no_markup_no_symbol_witness:
  "function_binding plain_function \<and> \<not> contains_markup plain_function \<and>
   bound_name plain_function = Some ''Helper'' \<and> \<not> test_use_upper ''Helper'' \<and>
   test_upper ''Helper'' \<and>
   visit depth2 [] plain_function [] = ([], False) \<and>
   traverse_node depth2 [] plain_function [] = []"
  using C8_no_markup_no_symbol[of plain_function depth2 "[]" "[]"]
  by (simp add: plain_function_def function_binding_def contains_markup_def bound_name_def
      outline_eval)

subsection \<open>Ranges\<close>

text \<open>
  \<^verbatim>\<open>vscode.Position\<close> and \<^verbatim>\<open>vscode.Range\<close> are records here. The parser counts
  lines from 1 and a location ends after it starts, so the editor's constructors, which
  reject a negative line and order the two ends of a range, leave these values as they are.
\<close>

lemma buildJSXTree_visitor_srange:
  "srange (fst (buildJSXTree_visitor doc M sf p st)) = srange (fst st)"
  using appends_same(4)[OF appends_addJSXSymbol] appends_same(4)[OF appends_processFragmentChildren]
  by (cases p; cases st) (auto simp: buildJSXTree_visitor_def)

lemma buildJSXTree_srange: "srange (buildJSXTree path s doc cfg M) = srange s"
proof (cases "getFunctionBody path")
  case None
  then show ?thesis by (simp add: buildJSXTree_def)
next
  case (Some body)
  have "srange (fst (fold (buildJSXTree_visitor doc M sf) ps (s, []))) = srange s" for sf ps
    by (rule fold_invariant[where I = "\<lambda>st. srange (fst st) = srange s"])
      (simp_all add: buildJSXTree_visitor_srange)
  then show ?thesis using Some by (simp add: buildJSXTree_def Let_def)
qed

text \<open>
  Claim C9. The range of a symbol is the location of its node with both lines
  decremented by one and the columns unchanged; a missing location gives the zero-width
  range at the start of the document. This is the range of every component symbol, every
  hook symbol and every markup symbol.
\<close>

theorem C9_ranges:
  "astRangeToVsCodeRange (Some loc) document =
     \<lparr>range_start = \<lparr>pos_line = line (loc_start loc) - 1, pos_character = column (loc_start loc)\<rparr>,
      range_end = \<lparr>pos_line = line (loc_end loc) - 1, pos_character = column (loc_end loc)\<rparr>\<rparr> \<and>
   astRangeToVsCodeRange None document =
     \<lparr>range_start = \<lparr>pos_line = 0, pos_character = 0\<rparr>,
      range_end = \<lparr>pos_line = 0, pos_character = 0\<rparr>\<rparr> \<and>
   srange (createComponentSymbol path document ty config) =
     astRangeToVsCodeRange (node_loc path) document \<and>
   srange (createHookSymbol path document) = astRangeToVsCodeRange (node_loc path) document \<and>
   (d < M \<longrightarrow>
     addJSXSymbol jsx s document d M sf = push_child s (jsx_symbol jsx document d M sf) \<and>
     srange (jsx_symbol jsx document d M sf) = astRangeToVsCodeRange (node_loc jsx) document)"
  by (simp add: astRangeToVsCodeRange_def positionAt_def Let_def createComponentSymbol_def
      buildJSXTree_srange createHookSymbol_def addJSXSymbol_push jsx_symbol_same)

definition sample_loc :: SourceLocation where
  "sample_loc = \<lparr>loc_start = \<lparr>line = 3, column = 4\<rparr>, loc_end = \<lparr>line = 5, column = 6\<rparr>\<rparr>"

theorem C9_ranges_witness:
  "(0::int) < 1 \<and>
   addJSXSymbol (JSXElement (Some sample_loc) (JSXIdentifier ''div'') [] [])
     (DocumentSymbol ''App'' ''Function Component'' Function zero_range zero_range []) [] 0 1 True =
   DocumentSymbol ''App'' ''Function Component'' Function zero_range zero_range
     [DocumentSymbol ''div'' [] Field
        \<lparr>range_start = \<lparr>pos_line = 2, pos_character = 4\<rparr>,
         range_end = \<lparr>pos_line = 4, pos_character = 6\<rparr>\<rparr>
        \<lparr>range_start = \<lparr>pos_line = 2, pos_character = 4\<rparr>,
         range_end = \<lparr>pos_line = 4, pos_character = 6\<rparr>\<rparr> []] \<and>
   srange (jsx_symbol (JSXElement (Some sample_loc) (JSXIdentifier ''div'') [] []) [] 0 1 True) =
     \<lparr>range_start = \<lparr>pos_line = 2, pos_character = 4\<rparr>,
      range_end = \<lparr>pos_line = 4, pos_character = 6\<rparr>\<rparr> \<and>
   astRangeToVsCodeRange None ''abc'' = zero_range"
  using C9_ranges[of sample_loc "[]" "Other []" TFunction depth2 0 1
      "JSXElement (Some sample_loc) (JSXIdentifier ''div'') [] []"
      "DocumentSymbol ''App'' ''Function Component'' Function zero_range zero_range []" True]
    C9_ranges[of sample_loc "''abc''" "Other []" TFunction depth2 0 1
      "JSXElement (Some sample_loc) (JSXIdentifier ''div'') [] []"
      "DocumentSymbol ''App'' ''Function Component'' Function zero_range zero_range []" True]
  by (simp add: sample_loc_def zero_range_def jsx_symbol_def outline_eval)

subsection \<open>Logical expressions in braces\<close>

lemma children_push_child: "children (push_child s c) = children s @ [c]"
  by (simp add: push_child_def)

lemma addJSXSymbol_children:
  "children (addJSXSymbol n s doc d M sf) =
     children s @ (if d < M then [jsx_symbol n doc d M sf] else [])"
  by (simp add: addJSXSymbol_push children_push_child)


lemma embedded_right_found:
  assumes "JSXExpressionContainer (LogicalExpression operator left right) \<in> set (getJSXChildren jsxPath)"
  shows "right \<in> set (descendants jsxPath)"
proof -
  let ?e = "JSXExpressionContainer (LogicalExpression operator left right)"
  have "?e \<in> set (descendants jsxPath)" using assms by (rule getJSXChildren_descendants)
  moreover have "right \<in> set (descendants ?e)"
    by (rule descendants_child[of "LogicalExpression operator left right"])
      (simp_all add: children_of_def child_in_descendants)
  ultimately show ?thesis by (rule descendants_trans)
qed

text \<open>
  Claim C10, as amended. The claim holds for the embedded expressions that the builder
  hands to \<^verbatim>\<open>processJSXExpression\<close>: the children in braces of a markup node that has a
  symbol (the loop of \<^verbatim>\<open>addJSXSymbol\<close>, one level below the node) and of a hidden
  fragment (the loop of \<^verbatim>\<open>processFragmentChildren\<close>, at the depth of the fragment).
  For such a child of logical shape, the children added to the parent symbol are the one
  symbol of the right operand when that operand is a markup element or a fragment and
  the depth is below the limit, and none otherwise; the operator and the left operand
  are not read.
\<close>

theorem C10_logical_operator_insensitive:
  assumes "JSXExpressionContainer (LogicalExpression operator left right)
             \<in> set (getJSXChildren parentPath)"
  shows "addJSXSymbol_body parentPath document d M sf
           (JSXExpressionContainer (LogicalExpression operator left right)) s =
         processJSXExpression (JSXExpressionContainer (LogicalExpression operator left right))
           s document (d + 1) M sf parentPath \<and>
         processFragmentChildren_body parentPath document d M sf
           (JSXExpressionContainer (LogicalExpression operator left right)) s =
         processJSXExpression (JSXExpressionContainer (LogicalExpression operator left right))
           s document d M sf parentPath \<and>
         children (processJSXExpression
             (JSXExpressionContainer (LogicalExpression operator left right))
             s document d M sf parentPath) =
           children s @
           (if (isJSXElement right \<or> isJSXFragment right) \<and> d < M
            then [jsx_symbol right document d M sf] else []) \<and>
         name (jsx_symbol right document d M sf) = getJSXTagName right \<and>
         processJSXExpression (JSXExpressionContainer (LogicalExpression operator left right))
           s document d M sf parentPath =
         processJSXExpression (JSXExpressionContainer (LogicalExpression operator' left' right))
           s document d M sf parentPath"
  using embedded_right_found[OF assms]
  by (simp add: addJSXSymbol_body_def processFragmentChildren_body_def isJSXElement_def
      isJSXFragment_def isJSXExpressionContainer_def processJSXExpression.simps
      findExpressionPath_found addJSXSymbol_push children_push_child jsx_symbol_same)

definition or_span :: node where
  "or_span = JSXExpressionContainer
     (LogicalExpression ''||'' (element ''a'' []) (element ''span'' []))"

definition blank_symbol :: DocumentSymbol where
  "blank_symbol = DocumentSymbol [] [] Field zero_range zero_range []"

text \<open>
  \<^verbatim>\<open>function A() { return <div title={x || <b/>}></div> }\<close>, where the expression is
  the value of an attribute, and \<^verbatim>\<open>const C = () => <div>{<a/> || <span/>}</div>\<close>,
  where it is a child of the root element of an arrow component with an expression body.
\<close>

definition scenario_attribute :: node where
  "scenario_attribute = Other [Other [
     FunctionDeclaration None (Some ''A'') []
       (BlockStatement [ReturnStatement (Some
          (JSXElement None (JSXIdentifier ''div'')
             [JSXExpressionContainer
                (LogicalExpression ''||'' (Identifier ''x'') (element ''b'' []))]
             []))])]]"

definition scenario_arrow_logical :: node where
  "scenario_arrow_logical = Other [Other [Other [
     VariableDeclarator None (Identifier ''C'')
       (Some (ArrowFunctionExpression [] (element ''div'' [or_span])))]]]"

text \<open>
  The claim as written speaks of every embedded expression. In the first file the right
  operand is a markup element one level below \<open>div\<close>, within the limit of 2, and gets no
  symbol: the builder does not look into attributes. In the second file the root
  element has no symbol and the traversal of the body finds both operands: the left
  operand gets a symbol.
\<close>

theorem C10_logical_operator_insensitive_counterexample:
  "getSymbolsFromDocument (\<lambda>_. Some scenario_attribute) depth2 [] =
     [DocumentSymbol ''A'' ''Function Component'' Function zero_range zero_range
        [markup ''div'' []]] \<and>
   getSymbolsFromDocument (\<lambda>_. Some scenario_arrow_logical) depth2 [] =
     [DocumentSymbol ''C'' ''Function Component'' Function zero_range zero_range
        [markup ''a'' [], markup ''span'' []]]"
  by (simp add: scenario_attribute_def scenario_arrow_logical_def or_span_def example_defs
      outline_eval)

theorem C10_logical_operator_insensitive_witness:
  "or_span \<in> set (getJSXChildren (element ''div'' [or_span])) \<and>
   children (processJSXExpression or_span blank_symbol [] 0 1 True (element ''div'' [or_span])) =
     [DocumentSymbol ''span'' [] Field zero_range zero_range []] \<and>
   children (addJSXSymbol_body (element ''div'' [or_span]) [] 0 2 True or_span blank_symbol) =
     [DocumentSymbol ''span'' [] Field zero_range zero_range []] \<and>
   children (addJSXSymbol_body (element ''div'' [or_span]) [] 0 1 True or_span blank_symbol) = [] \<and>
   children (processFragmentChildren_body (element ''div'' [or_span]) [] 0 1 True or_span
       blank_symbol) =
     [DocumentSymbol ''span'' [] Field zero_range zero_range []] \<and>
   processJSXExpression or_span blank_symbol [] 0 1 True (element ''div'' [or_span]) =
     processJSXExpression
       (JSXExpressionContainer (LogicalExpression ''&&'' (Identifier ''x'') (element ''span'' [])))
       blank_symbol [] 0 1 True (element ''div'' [or_span])"
  using C10_logical_operator_insensitive[of "''||''" "element ''a'' []" "element ''span'' []"
      "element ''div'' [or_span]" "[]" 0 1 True blank_symbol "''&&''" "Identifier ''x''"]
    C10_logical_operator_insensitive[of "''||''" "element ''a'' []" "element ''span'' []"
      "element ''div'' [or_span]" "[]" 0 2 True blank_symbol "''&&''" "Identifier ''x''"]
    C10_logical_operator_insensitive[of "''||''" "element ''a'' []" "element ''span'' []"
      "element ''div'' [or_span]" "[]" 1 2 True blank_symbol "''&&''" "Identifier ''x''"]
  by (simp add: or_span_def blank_symbol_def example_defs jsx_symbol_def outline_eval)





subsection \<open>Callbacks of a call in braces\<close>






lemma function_body_child: "function_body a = Some b \<Longrightarrow> b \<in> set (children_of a)"
  by (cases a) (auto simp: function_body_def children_of_def)









subsection \<open>Nested declarations\<close>

text \<open>The nodes whose visitor runs when the traversal is started at a node.\<close>

function reached :: "Configuration \<Rightarrow> TextDocument \<Rightarrow> node \<Rightarrow> node list" where
  "reached config document path =
     path # (if snd (visit config document path []) then []
             else concat (map (reached config document) (children_of path)))"
  by pat_completeness auto
termination
  by (relation "measure (\<lambda>(config, document, path). size path)") (auto simp: size_children_of)

declare reached.simps [simp del]

fun subtree :: "DocumentSymbol \<Rightarrow> DocumentSymbol list" where
  "subtree (DocumentSymbol nm dt k r sr cs) =
     DocumentSymbol nm dt k r sr cs # concat (map subtree cs)"

lemma visit_append:
  "visit cfg doc n symbols = (symbols @ fst (visit cfg doc n []), snd (visit cfg doc n []))"
  by (cases n)
    (auto simp: visit_def visit_FunctionDeclaration_def visit_VariableDeclarator_def
      visit_ClassDeclaration_def split: node.splits option.splits)

lemma fold_mono:
  "(\<And>x s. x \<in> set xs \<Longrightarrow> set s \<subseteq> set (f x s)) \<Longrightarrow> set s0 \<subseteq> set (fold f xs s0)"
proof (induction xs arbitrary: s0)
  case Nil
  show ?case by simp
next
  case (Cons x xs)
  have "set s0 \<subseteq> set (f x s0)" using Cons.prems by simp
  also have "\<dots> \<subseteq> set (fold f xs (f x s0))" using Cons by simp
  finally show ?case by simp
qed

lemma traverse_node_mono: "set symbols \<subseteq> set (traverse_node cfg doc n symbols)"
proof (induction cfg doc n symbols rule: traverse_node.induct)
  case (1 config document path symbols)
  obtain symbols' skip where v: "visit config document path symbols = (symbols', skip)"
    by (cases "visit config document path symbols")
  have s': "set symbols \<subseteq> set symbols'"
    using v visit_append[of config document path symbols] by auto
  show ?case
  proof (cases skip)
    case True
    then show ?thesis using v s' by (simp add: traverse_node.simps[of config document path symbols])
  next
    case False
    have "set symbols' \<subseteq> set (fold (traverse_node config document) (children_of path) symbols')"
      by (rule fold_mono) (use "1.IH"[OF v[symmetric] False] in auto)
    then show ?thesis using v False s'
      by (auto simp: traverse_node.simps[of config document path symbols])
  qed
qed

lemma fold_member:
  assumes "c \<in> set xs" and "\<And>s. e \<in> set (f c s)"
    and "\<And>x s. x \<in> set xs \<Longrightarrow> set s \<subseteq> set (f x s)"
  shows "e \<in> set (fold f xs s0)"
proof -
  from assms(1) obtain pre post where xs: "xs = pre @ c # post" by (auto simp: in_set_conv_decomp)
  have "e \<in> set (f c (fold f pre s0))" by (rule assms(2))
  moreover have "set (f c (fold f pre s0)) \<subseteq> set (fold f post (f c (fold f pre s0)))"
    by (rule fold_mono) (use assms(3) xs in auto)
  ultimately show ?thesis by (auto simp: xs)
qed

lemma reached_emits:
  "inner \<in> set (reached cfg doc n) \<Longrightarrow> e \<in> set (fst (visit cfg doc inner [])) \<Longrightarrow>
   e \<in> set (traverse_node cfg doc n symbols)"
proof (induction cfg doc n symbols rule: traverse_node.induct)
  case (1 config document path symbols)
  obtain symbols' skip where v: "visit config document path symbols = (symbols', skip)"
    by (cases "visit config document path symbols")
  have v0: "symbols' = symbols @ fst (visit config document path [])"
    "skip = snd (visit config document path [])"
    using v visit_append[of config document path symbols] by auto
  show ?case
  proof (cases "inner = path")
    case True
    then have "e \<in> set symbols'" using "1.prems"(2) v0 by simp
    moreover have "set symbols' \<subseteq> set (traverse_node config document path symbols)"
    proof (cases skip)
      case True
      then show ?thesis using v by (simp add: traverse_node.simps[of config document path symbols])
    next
      case False
      have "set symbols' \<subseteq> set (fold (traverse_node config document) (children_of path) symbols')"
        by (rule fold_mono) (rule traverse_node_mono)
      then show ?thesis using v False
        by (simp add: traverse_node.simps[of config document path symbols])
    qed
    ultimately show ?thesis by blast
  next
    case False
    with "1.prems"(1) have ns: "\<not> skip"
      and "\<exists>c \<in> set (children_of path). inner \<in> set (reached config document c)"
      using v0 by (auto simp: reached.simps[of config document path] split: if_splits)
    then obtain c where c: "c \<in> set (children_of path)" "inner \<in> set (reached config document c)"
      by blast
    have "e \<in> set (fold (traverse_node config document) (children_of path) symbols')"
    proof (rule fold_member[OF c(1)])
      fix s show "e \<in> set (traverse_node config document c s)"
        using "1.IH"[OF v[symmetric] ns c(1) c(2) "1.prems"(2)] .
    qed (rule traverse_node_mono)
    then show ?thesis using v ns
      by (simp add: traverse_node.simps[of config document path symbols])
  qed
qed

lemma markup_ok_subtree: "markup_ok M d c \<Longrightarrow> n \<in> set (subtree c) \<Longrightarrow> detail n = []"
proof (induction c arbitrary: d n)
  case (DocumentSymbol nm dt kd r sr cs)
  then show ?case by (fastforce simp: list_all_iff)
qed


lemma buildJSXTree_visitor_detail:
  "detail (fst (buildJSXTree_visitor doc M sf p st)) = detail (fst st)"
  using appends_same(2)[OF appends_addJSXSymbol] appends_same(2)[OF appends_processFragmentChildren]
  by (cases p; cases st) (auto simp: buildJSXTree_visitor_def)

lemma buildJSXTree_detail: "detail (buildJSXTree path s doc cfg M) = detail s"
proof (cases "getFunctionBody path")
  case None
  then show ?thesis by (simp add: buildJSXTree_def)
next
  case (Some body)
  have "detail (fst (fold (buildJSXTree_visitor doc M sf) ps (s, []))) = detail s" for sf ps
    by (rule fold_invariant[where I = "\<lambda>st. detail (fst st) = detail s"])
      (simp_all add: buildJSXTree_visitor_detail)
  then show ?thesis using Some by (simp add: buildJSXTree_def Let_def)
qed

lemma visit_detail:
  "list_all (\<lambda>s. detail s \<noteq> []) symbols \<Longrightarrow>
   list_all (\<lambda>s. detail s \<noteq> []) (fst (visit cfg doc path symbols))"
  by (cases path)
    (auto simp: visit_def visit_FunctionDeclaration_def visit_VariableDeclarator_def
      visit_ClassDeclaration_def createComponentSymbol_def createHookSymbol_def
      buildJSXTree_detail Let_def split: node.splits option.splits)

lemma traverse_node_detail:
  "list_all (\<lambda>s. detail s \<noteq> []) symbols \<Longrightarrow>
   list_all (\<lambda>s. detail s \<noteq> []) (traverse_node cfg doc path symbols)"
proof (induction cfg doc path symbols rule: traverse_node.induct)
  case (1 config document path symbols)
  obtain symbols' skip where v: "visit config document path symbols = (symbols', skip)"
    by (cases "visit config document path symbols")
  have s': "list_all (\<lambda>s. detail s \<noteq> []) symbols'"
    using visit_detail[OF "1.prems", of config document path] v by simp
  show ?case
  proof (cases skip)
    case True
    then show ?thesis using v s' by (simp add: traverse_node.simps[of config document path symbols])
  next
    case False
    have "list_all (\<lambda>s. detail s \<noteq> [])
            (fold (traverse_node config document) (children_of path) symbols')"
      by (rule fold_invariant) (use "1.IH"[OF v[symmetric] False] s' in auto)
    then show ?thesis using v False
      by (simp add: traverse_node.simps[of config document path symbols])
  qed
qed

lemma getSymbolsFromDocument_detail:
  "s \<in> set (getSymbolsFromDocument parse cfg doc) \<Longrightarrow> detail s \<noteq> []"
proof (cases "parse doc")
  case None
  then show "s \<in> set (getSymbolsFromDocument parse cfg doc) \<Longrightarrow> ?thesis"
    by (simp add: getSymbolsFromDocument_def)
next
  case (Some ast)
  assume s: "s \<in> set (getSymbolsFromDocument parse cfg doc)"
  have "list_all (\<lambda>s. detail s \<noteq> []) (fold (traverse_node cfg doc) (children_of ast) [])"
    by (rule fold_invariant) (use traverse_node_detail in auto)
  then show ?thesis using s Some by (simp add: getSymbolsFromDocument_def list_all_iff)
qed

lemma classified_skips:
  assumes "isFunctionComponent outer \<or> isCustomHook outer"
  shows "visit config document outer symbols =
     ((if isFunctionComponent outer
       then symbols @ [createComponentSymbol outer document TFunction config]
       else if config_get (cfg_showHooks config) True
       then symbols @ [createHookSymbol outer document]
       else symbols), True)"
  using assms
  by (cases outer)
    (auto simp: visit_def visit_FunctionDeclaration_def isFunctionComponent_def isCustomHook_def)

text \<open>
  Claim C4, as amended. A function declaration that is classified as a component or as a
  hook has its whole subtree skipped: the traversal of it adds at most its own symbol, so
  a declaration nested in it gets no entry. A nested function declaration that the
  traversal reaches (no enclosing node on the way was skipped) is an entry of the result
  list when it qualifies as a component, and when it qualifies as a hook while
  \<^verbatim>\<open>showHooks\<close> is on; a hook reached while \<^verbatim>\<open>showHooks\<close> is off adds nothing. No
  component or hook symbol is ever created as a child: in every result the entries have a
  non-empty detail string and every symbol below an entry is a markup symbol, with an
  empty detail string. This says nothing on where the markup of a nested declaration is
  listed: the tree of an entry is built from every markup node of its body that has no
  markup node above it, those of a nested declaration included (see the example below).
\<close>

theorem C4_nested_declarations:
  "(isFunctionComponent outer \<or> isCustomHook outer \<longrightarrow>
      reached config document outer = [outer] \<and>
      traverse_node config document outer symbols =
        (if isFunctionComponent outer
         then symbols @ [createComponentSymbol outer document TFunction config]
         else if config_get (cfg_showHooks config) True
         then symbols @ [createHookSymbol outer document]
         else symbols)) \<and>
   (inner \<in> set (reached config document outer) \<and> isFunctionComponent inner \<longrightarrow>
      createComponentSymbol inner document TFunction config
        \<in> set (traverse_node config document outer symbols)) \<and>
   (inner \<in> set (reached config document outer) \<and> \<not> isFunctionComponent inner \<and>
      isCustomHook inner \<and> config_get (cfg_showHooks config) True \<longrightarrow>
      createHookSymbol inner document \<in> set (traverse_node config document outer symbols)) \<and>
   (\<not> isFunctionComponent inner \<and> isCustomHook inner \<and>
      \<not> config_get (cfg_showHooks config) True \<longrightarrow>
      visit config document inner symbols = (symbols, True) \<and>
      traverse_node config document inner symbols = symbols) \<and>
   (\<forall>s \<in> set (getSymbolsFromDocument parse config document).
      detail s \<noteq> [] \<and> (\<forall>c \<in> set (children s). \<forall>n \<in> set (subtree c). detail n = []))"
proof (intro conjI impI ballI)
  assume c: "isFunctionComponent outer \<or> isCustomHook outer"
  show "reached config document outer = [outer]"
    using classified_skips[OF c, of config document "[]"]
    by (simp add: reached.simps[of config document outer])
  show "traverse_node config document outer symbols =
        (if isFunctionComponent outer
         then symbols @ [createComponentSymbol outer document TFunction config]
         else if config_get (cfg_showHooks config) True
         then symbols @ [createHookSymbol outer document]
         else symbols)"
    using classified_skips[OF c, of config document symbols]
    by (simp add: traverse_node.simps[of config document outer symbols])
next
  assume a: "inner \<in> set (reached config document outer) \<and> isFunctionComponent inner"
  then have "createComponentSymbol inner document TFunction config
      \<in> set (fst (visit config document inner []))"
    using classified_skips[of inner config document "[]"] by simp
  with a show "createComponentSymbol inner document TFunction config
        \<in> set (traverse_node config document outer symbols)"
    using reached_emits by blast
next
  assume a: "inner \<in> set (reached config document outer) \<and> \<not> isFunctionComponent inner \<and>
      isCustomHook inner \<and> config_get (cfg_showHooks config) True"
  then have "createHookSymbol inner document \<in> set (fst (visit config document inner []))"
    using classified_skips[of inner config document "[]"] by simp
  with a show "createHookSymbol inner document \<in> set (traverse_node config document outer symbols)"
    using reached_emits by blast
next
  assume a: "\<not> isFunctionComponent inner \<and> isCustomHook inner \<and>
      \<not> config_get (cfg_showHooks config) True"
  then show v: "visit config document inner symbols = (symbols, True)"
    using classified_skips[of inner config document symbols] by simp
  then show "traverse_node config document inner symbols = symbols"
    by (simp add: traverse_node.simps[of config document inner symbols])
next
  fix s assume "s \<in> set (getSymbolsFromDocument parse config document)"
  then show "detail s \<noteq> []" by (rule getSymbolsFromDocument_detail)
next
  fix s c n
  assume s: "s \<in> set (getSymbolsFromDocument parse config document)"
    and c: "c \<in> set (children s)" and n: "n \<in> set (subtree c)"
  from s have "kids_ok (config_get (cfg_maxJSXDepth config) 2) 0 s"
    by (rule getSymbolsFromDocument_kids_ok)
  with c have "markup_ok (config_get (cfg_maxJSXDepth config) 2) 0 c"
    by (simp add: kids_ok_def list_all_iff)
  then show "detail n = []" using n by (rule markup_ok_subtree)
qed


lemmas reached_eval =
  reached.simps[of cf d "Identifier s"] reached.simps[of cf d "StringLiteral s"]
  reached.simps[of cf d "MemberExpression a b"]
  reached.simps[of cf d "JSXElement l nm xs ys"] reached.simps[of cf d "JSXFragment l xs"]
  reached.simps[of cf d "JSXText s"] reached.simps[of cf d "JSXExpressionContainer a"]
  reached.simps[of cf d "JSXSpreadChild a"] reached.simps[of cf d "JSXEmptyExpression"]
  reached.simps[of cf d "LogicalExpression s a b"] reached.simps[of cf d "ConditionalExpression a b c"]
  reached.simps[of cf d "CallExpression a xs"] reached.simps[of cf d "ArrowFunctionExpression xs a"]
  reached.simps[of cf d "FunctionExpression xs a"] reached.simps[of cf d "BlockStatement xs"]
  reached.simps[of cf d "ReturnStatement oa"] reached.simps[of cf d "FunctionDeclaration l os xs a"]
  reached.simps[of cf d "VariableDeclarator l a oa"] reached.simps[of cf d "ClassDeclaration l os oa xs"]
  reached.simps[of cf d "ClassMethod a xs b"] reached.simps[of cf d "Other xs"]
  for cf d s a b c l nm xs ys oa os

text \<open>
  \<^verbatim>\<open>function Child() { return <div><span/></div> }\<close> and \<^verbatim>\<open>function useThing() {}\<close>,
  nested in \<^verbatim>\<open>function Parent() { ...; return <div><Child/></div> }\<close> and in
  \<^verbatim>\<open>function helper() { ... }\<close>.
\<close>

definition child_declaration :: node where
  "child_declaration =
     FunctionDeclaration None (Some ''Child'') []
       (BlockStatement [ReturnStatement (Some (element ''div'' [element ''span'' []]))])"

definition hook_declaration :: node where
  "hook_declaration = FunctionDeclaration None (Some ''useThing'') [] (BlockStatement [])"

definition parent_declaration :: node where
  "parent_declaration =
     FunctionDeclaration None (Some ''Parent'') []
       (BlockStatement [child_declaration,
          ReturnStatement (Some (element ''div'' [element ''Child'' []]))])"

definition helper_declaration :: node where
  "helper_declaration =
     FunctionDeclaration None (Some ''helper'') []
       (BlockStatement [child_declaration, hook_declaration])"

definition parent_symbol :: DocumentSymbol where
  "parent_symbol =
     DocumentSymbol ''Parent'' ''Function Component'' Function zero_range zero_range
       [markup ''div'' [markup ''span'' []], markup ''div'' [markup ''Child'' []]]"

definition child_symbol :: DocumentSymbol where
  "child_symbol =
     DocumentSymbol ''Child'' ''Function Component'' Function zero_range zero_range
       [markup ''div'' [markup ''span'' []]]"

definition hooks_hidden :: Configuration where
  "hooks_hidden =
     \<lparr>cfg_maxJSXDepth = Some 2, cfg_showFragments = None, cfg_showHooks = Some False\<rparr>"

lemmas nested_defs = child_declaration_def hook_declaration_def parent_declaration_def
  helper_declaration_def parent_symbol_def child_symbol_def hooks_hidden_def

text \<open>
  The claim as written says that the inner declaration is a top-level entry; for
  \<^verbatim>\<open>Parent\<close> and \<^verbatim>\<open>Child\<close> the only entry is \<open>Parent\<close>, and the markup that
  \<open>Child\<close> returns is listed among the children of \<open>Parent\<close>, before the markup that
  \<open>Parent\<close> returns.
\<close>

theorem C4_nested_declarations_counterexample:
  "isFunctionComponent child_declaration \<and>
   child_declaration \<in> set (descendants parent_declaration) \<and>
   getSymbolsFromDocument (\<lambda>_. Some (Other [Other [parent_declaration]])) depth2 [] =
     [parent_symbol]"
  by (simp add: nested_defs example_defs outline_eval)

theorem C4_nested_declarations_witness:
  "isFunctionComponent parent_declaration \<and>
   reached depth2 [] parent_declaration = [parent_declaration] \<and>
   traverse_node depth2 [] parent_declaration [] = [parent_symbol] \<and>
   child_declaration \<in> set (reached depth2 [] helper_declaration) \<and>
   isFunctionComponent child_declaration \<and>
   hook_declaration \<in> set (reached depth2 [] helper_declaration) \<and>
   \<not> isFunctionComponent hook_declaration \<and> isCustomHook hook_declaration \<and>
   config_get (cfg_showHooks depth2) True \<and>
   createComponentSymbol child_declaration [] TFunction depth2 = child_symbol \<and>
   child_symbol \<in> set (traverse_node depth2 [] helper_declaration []) \<and>
   createHookSymbol hook_declaration [] \<in> set (traverse_node depth2 [] helper_declaration []) \<and>
   traverse_node depth2 [] helper_declaration [] =
     [child_symbol,
      DocumentSymbol ''useThing'' ''Hook'' Function zero_range zero_range []] \<and>
   \<not> config_get (cfg_showHooks hooks_hidden) True \<and>
   visit hooks_hidden [] hook_declaration [] = ([], True) \<and>
   traverse_node hooks_hidden [] hook_declaration [] = [] \<and>
   traverse_node hooks_hidden [] helper_declaration [] = [child_symbol] \<and>
   parent_symbol \<in> set (getSymbolsFromDocument (\<lambda>_. Some (Other [Other [parent_declaration]]))
      depth2 []) \<and>
   detail parent_symbol = ''Function Component'' \<and>
   list_all (\<lambda>n. detail n = []) (concat (map subtree (children parent_symbol)))"
proof -
  have ev: "isFunctionComponent parent_declaration" "isFunctionComponent child_declaration"
    "\<not> isFunctionComponent hook_declaration" "isCustomHook hook_declaration"
    "config_get (cfg_showHooks depth2) True"
    "child_declaration \<in> set (reached depth2 [] helper_declaration)"
    "hook_declaration \<in> set (reached depth2 [] helper_declaration)"
    "createComponentSymbol child_declaration [] TFunction depth2 = child_symbol"
    "createComponentSymbol parent_declaration [] TFunction depth2 = parent_symbol"
    "\<not> config_get (cfg_showHooks hooks_hidden) True"
    "traverse_node depth2 [] helper_declaration [] =
       [child_symbol, DocumentSymbol ''useThing'' ''Hook'' Function zero_range zero_range []]"
    "traverse_node hooks_hidden [] helper_declaration [] = [child_symbol]"
    "getSymbolsFromDocument (\<lambda>_. Some (Other [Other [parent_declaration]])) depth2 [] =
       [parent_symbol]"
    by (simp_all add: nested_defs example_defs reached_eval outline_eval)
  show ?thesis
    using ev
      C4_nested_declarations[of parent_declaration depth2 "[]" "[]" child_declaration
        "\<lambda>_. Some (Other [Other [parent_declaration]])"]
      C4_nested_declarations[of helper_declaration depth2 "[]" "[]" child_declaration
        "\<lambda>_. Some (Other [Other [parent_declaration]])"]
      C4_nested_declarations[of helper_declaration depth2 "[]" "[]" hook_declaration
        "\<lambda>_. Some (Other [Other [parent_declaration]])"]
      C4_nested_declarations[of helper_declaration hooks_hidden "[]" "[]" hook_declaration
        "\<lambda>_. Some (Other [Other [parent_declaration]])"]
    by (auto simp: list_all_iff parent_symbol_def)
qed



subsection \<open>Fragments shown and hidden\<close>

text \<open>A node with no fragment anywhere below it.\<close>

definition fragment_free :: "node \<Rightarrow> bool" where
  "fragment_free n = (\<not> list_ex isJSXFragment (descendants n))"

lemma fragment_free_descendant:
  "fragment_free n \<Longrightarrow> m \<in> set (descendants n) \<Longrightarrow> fragment_free m \<and> \<not> isJSXFragment m"
  by (auto simp: fragment_free_def list_ex_iff dest: descendants_trans)

lemma fold_eq:
  "(\<And>x s. x \<in> set xs \<Longrightarrow> f x s = g x s) \<Longrightarrow> fold f xs s0 = fold g xs s0"
  by (induction xs arbitrary: s0) auto

lemma lookup_eq:
  assumes "\<And>s. A x s = B x s"
  shows "(case findExpressionPath pp x of None \<Rightarrow> s | Some p \<Rightarrow> A p s) =
         (case findExpressionPath pp x of None \<Rightarrow> s | Some p \<Rightarrow> B p s)"
  using findExpressionPath_cases[of pp x] assms by auto

text \<open>
  Below a node without fragments the builder does not read \<^verbatim>\<open>showFragments\<close>, and
  it reads the depth and the limit only through their difference.
\<close>

lemma traverseCall_shift:
  assumes IH: "\<And>m s. m \<in> set (descendants e) \<Longrightarrow>
      addJSXSymbol m s doc d1 M1 sf1 = addJSXSymbol m s doc d2 M2 sf2"
  shows "traverseCallExpressionForJSX e s doc d1 M1 sf1 pp =
         traverseCallExpressionForJSX e s doc d2 M2 sf2 pp"
proof (cases e)
  case (CallExpression callee args)
  have arg: "traverseCall_arg pp doc d1 M1 sf1 a s' = traverseCall_arg pp doc d2 M2 sf2 a s'"
    if a: "a \<in> set args" for a s'
  proof (cases "function_body a")
    case None
    then show ?thesis by (simp add: traverseCall_arg_def)
  next
    case (Some body)
    have ae: "a \<in> set (descendants e)"
      using a by (simp add: CallExpression child_in_descendants children_of_def)
    have "body \<in> set (descendants a)"
      using function_body_child[OF Some] by (rule child_in_descendants)
    with ae have be: "body \<in> set (descendants e)" by (rule descendants_trans)
    show ?thesis
    proof (cases "isJSXElement body \<or> isJSXFragment body")
      case True
      then show ?thesis
        using Some lookup_eq[where A = "\<lambda>p s. addJSXSymbol p s doc d1 M1 sf1" and x = body
            and B = "\<lambda>p s. addJSXSymbol p s doc d2 M2 sf2" and pp = pp and s = s'] IH[OF be]
        by (simp add: traverseCall_arg_def)
    next
      case False
      show ?thesis
      proof (cases body)
        case (BlockStatement stmts)
        have "traverseCall_statement pp doc d1 M1 sf1 st s'' =
              traverseCall_statement pp doc d2 M2 sf2 st s''" if st: "st \<in> set stmts" for st s''
        proof (cases st)
          case (ReturnStatement arg)
          show ?thesis
          proof (cases arg)
            case None
            then show ?thesis by (simp add: traverseCall_statement_def ReturnStatement)
          next
            case (Some x)
            have "st \<in> set (descendants body)"
              using st by (simp add: BlockStatement child_in_descendants children_of_def)
            moreover have "x \<in> set (descendants st)"
              by (simp add: ReturnStatement Some child_in_descendants children_of_def opt_list_def)
            ultimately have "x \<in> set (descendants body)" by (rule descendants_trans)
            with be have "x \<in> set (descendants e)" by (rule descendants_trans)
            then show ?thesis
              using lookup_eq[where A = "\<lambda>p s. addJSXSymbol p s doc d1 M1 sf1" and x = x
            and B = "\<lambda>p s. addJSXSymbol p s doc d2 M2 sf2" and pp = pp and s = "s''"] IH[of x]
              by (simp add: traverseCall_statement_def ReturnStatement Some)
          qed
        qed (simp_all add: traverseCall_statement_def)
        then have "fold (traverseCall_statement pp doc d1 M1 sf1) stmts s' =
                   fold (traverseCall_statement pp doc d2 M2 sf2) stmts s'"
          by (rule fold_eq)
        then show ?thesis using False Some BlockStatement by (simp add: traverseCall_arg_def)
      qed (use False Some in \<open>simp_all add: traverseCall_arg_def\<close>)
    qed
  qed
  have "fold (traverseCall_arg pp doc d1 M1 sf1) args s = fold (traverseCall_arg pp doc d2 M2 sf2) args s"
    by (rule fold_eq) (rule arg)
  then show ?thesis by (simp add: traverseCallExpressionForJSX_unfold CallExpression)
qed (simp_all add: traverseCallExpressionForJSX_unfold)

lemma processJSXExpression_shift:
  assumes IH: "\<And>m s. m \<in> set (descendants e) \<Longrightarrow>
      addJSXSymbol m s doc d1 M1 sf1 = addJSXSymbol m s doc d2 M2 sf2"
    and lim: "(M1 \<le> d1) = (M2 \<le> d2)"
  shows "processJSXExpression e s doc d1 M1 sf1 pp = processJSXExpression e s doc d2 M2 sf2 pp"
proof (cases "M1 \<le> d1")
  case True
  then show ?thesis using lim by (simp add: processJSXExpression.simps)
next
  case False
  then have deep: "\<not> M1 \<le> d1" "\<not> M2 \<le> d2" using lim by simp_all
  show ?thesis
  proof (cases e)
    case (JSXExpressionContainer x)
    have xe: "x \<in> set (descendants e)"
      by (simp add: JSXExpressionContainer child_in_descendants children_of_def)
    show ?thesis
    proof (cases x)
      case (LogicalExpression op l r)
      have "r \<in> set (descendants x)"
        by (simp add: LogicalExpression child_in_descendants children_of_def)
      with xe have "r \<in> set (descendants e)" by (rule descendants_trans)
      then show ?thesis
        using deep lookup_eq[where A = "\<lambda>p s. addJSXSymbol p s doc d1 M1 sf1" and x = r
            and B = "\<lambda>p s. addJSXSymbol p s doc d2 M2 sf2" and pp = pp and s = s] IH[of r]
        by (simp add: processJSXExpression.simps JSXExpressionContainer LogicalExpression)
    next
      case (ConditionalExpression t c a)
      have "c \<in> set (descendants x)" "a \<in> set (descendants x)"
        by (simp_all add: ConditionalExpression child_in_descendants children_of_def)
      with xe have ce: "c \<in> set (descendants e)" and ae: "a \<in> set (descendants e)"
        by (auto intro: descendants_trans)
      show ?thesis
        using deep findExpressionPath_cases[of pp c] findExpressionPath_cases[of pp a]
        by (auto simp: processJSXExpression.simps JSXExpressionContainer ConditionalExpression
            Let_def IH[OF ce] IH[OF ae])
    next
      case (CallExpression callee args)
      have "traverseCallExpressionForJSX x s doc d1 M1 sf1 pp =
            traverseCallExpressionForJSX x s doc d2 M2 sf2 pp"
      proof (rule traverseCall_shift)
        fix m s' assume "m \<in> set (descendants x)"
        with xe have "m \<in> set (descendants e)" by (rule descendants_trans)
        then show "addJSXSymbol m s' doc d1 M1 sf1 = addJSXSymbol m s' doc d2 M2 sf2"
          by (rule IH)
      qed
      then show ?thesis
        using deep
        by (simp add: processJSXExpression.simps JSXExpressionContainer CallExpression)
    qed (use deep in \<open>simp_all add: processJSXExpression.simps JSXExpressionContainer\<close>)
  qed (use deep in \<open>simp_all add: processJSXExpression.simps\<close>)
qed


lemma builder_shift:
  "fragment_free n \<longrightarrow>
     (\<forall>s d1 M1 d2 M2 sf1 sf2. M1 - d1 = M2 - d2 \<longrightarrow>
        addJSXSymbol n s doc d1 M1 sf1 = addJSXSymbol n s doc d2 M2 sf2 \<and>
        processFragmentChildren n s doc d1 M1 sf1 = processFragmentChildren n s doc d2 M2 sf2)"
proof (induction n rule: measure_induct_rule[where f = size])
  case (less n)
  show ?case
  proof (intro impI allI)
    fix s :: DocumentSymbol and d1 M1 d2 M2 :: int and sf1 sf2 :: bool
    assume ff: "fragment_free n" and eq: "M1 - d1 = M2 - d2"
    have IHa: "addJSXSymbol m s' doc e1 N1 sf1 = addJSXSymbol m s' doc e2 N2 sf2"
      if "m \<in> set (descendants n)" "N1 - e1 = N2 - e2" for m s' e1 N1 e2 N2
      using less.IH[of m] that fragment_free_descendant[OF ff that(1)] size_descendants[OF that(1)]
      by blast
    have pje: "processJSXExpression c s' doc e1 N1 sf1 n = processJSXExpression c s' doc e2 N2 sf2 n"
      if c: "c \<in> set (getJSXChildren n)" and N: "N1 - e1 = N2 - e2" for c s' e1 N1 e2 N2
    proof (rule processJSXExpression_shift)
      fix m s'' assume "m \<in> set (descendants c)"
      with getJSXChildren_descendants[OF c] have "m \<in> set (descendants n)"
        by (rule descendants_trans)
      then show "addJSXSymbol m s'' doc e1 N1 sf1 = addJSXSymbol m s'' doc e2 N2 sf2"
        using N by (rule IHa)
    next
      show "(N1 \<le> e1) = (N2 \<le> e2)" using N by arith
    qed
    have body_a: "addJSXSymbol_body n doc d1 M1 sf1 c s' = addJSXSymbol_body n doc d2 M2 sf2 c s'"
      if c: "c \<in> set (getJSXChildren n)" for c s'
    proof -
      have cn: "c \<in> set (descendants n)" using c by (rule getJSXChildren_descendants)
      have nf: "\<not> isJSXFragment c" using fragment_free_descendant[OF ff cn] by simp
      have "M1 - (d1 + 1) = M2 - (d2 + 1)" using eq by arith
      then show ?thesis
        using nf cn IHa[OF cn, of M1 "d1 + 1" M2 "d2 + 1" s'] pje[OF c, of M1 "d1 + 1" M2 "d2 + 1" s']
        by (simp add: addJSXSymbol_body_def findChildPath_found)
    qed
    have body_f: "processFragmentChildren_body n doc d1 M1 sf1 c s' =
                  processFragmentChildren_body n doc d2 M2 sf2 c s'"
      if c: "c \<in> set (getJSXChildren n)" for c s'
    proof -
      have cn: "c \<in> set (descendants n)" using c by (rule getJSXChildren_descendants)
      have nf: "\<not> isJSXFragment c" using fragment_free_descendant[OF ff cn] by simp
      show ?thesis
        using nf cn IHa[OF cn eq, of s'] pje[OF c eq, of s']
        by (simp add: processFragmentChildren_body_def findChildPath_found)
    qed
    have lim: "(M1 \<le> d1) = (M2 \<le> d2)" using eq by arith
    have "fold (addJSXSymbol_body n doc d1 M1 sf1) (getJSXChildren n) (new_jsx_symbol n doc) =
          fold (addJSXSymbol_body n doc d2 M2 sf2) (getJSXChildren n) (new_jsx_symbol n doc)"
      by (rule fold_eq) (rule body_a)
    then have a: "addJSXSymbol n s doc d1 M1 sf1 = addJSXSymbol n s doc d2 M2 sf2"
      using lim by (simp add: addJSXSymbol_unfold)
    have "fold (processFragmentChildren_body n doc d1 M1 sf1) (getJSXChildren n) s =
          fold (processFragmentChildren_body n doc d2 M2 sf2) (getJSXChildren n) s"
      by (rule fold_eq) (rule body_f)
    then have f: "processFragmentChildren n s doc d1 M1 sf1 =
                  processFragmentChildren n s doc d2 M2 sf2"
      by (simp add: processFragmentChildren_unfold)
    from a f show "addJSXSymbol n s doc d1 M1 sf1 = addJSXSymbol n s doc d2 M2 sf2 \<and>
        processFragmentChildren n s doc d1 M1 sf1 = processFragmentChildren n s doc d2 M2 sf2"
      by simp
  qed
qed

text \<open>
  The symbols that the hidden setting adds to the parent of a fragment at a depth and
  under a limit: what \<^verbatim>\<open>processFragmentChildren\<close> adds to a symbol without children.
\<close>

definition hidden_children :: "node \<Rightarrow> TextDocument \<Rightarrow> int \<Rightarrow> int \<Rightarrow> DocumentSymbol list" where
  "hidden_children fragmentPath document d M =
     children (processFragmentChildren fragmentPath (new_jsx_symbol fragmentPath document)
       document d M False)"

lemma hidden_run:
  "processFragmentChildren F s doc d M False = append_children s (hidden_children F doc d M)"
proof -
  have "appends (\<lambda>s. processFragmentChildren F s doc d M False)"
    by (rule appends_processFragmentChildren)
  then obtain ks where ks: "\<And>s. processFragmentChildren F s doc d M False = append_children s ks"
    unfolding appends_def by blast
  have "hidden_children F doc d M = ks"
    unfolding hidden_children_def by (subst ks) (simp add: new_jsx_symbol_def Let_def)
  then show ?thesis using ks by simp
qed

lemma shown_fragment:
  assumes ff: "fragment_free (JSXFragment loc kids)" and lim: "d < M"
  shows "jsx_symbol (JSXFragment loc kids) doc d M True =
         DocumentSymbol ''<Fragment>'' [] Namespace
           (astRangeToVsCodeRange loc doc) (astRangeToVsCodeRange loc doc)
           (hidden_children (JSXFragment loc kids) doc d (M - 1))"
proof -
  let ?F = "JSXFragment loc kids"
  have kid: "addJSXSymbol_body ?F doc d M True c s' =
             processFragmentChildren_body ?F doc d (M - 1) False c s'"
    if c: "c \<in> set (getJSXChildren ?F)" for c s'
  proof -
    have cn: "c \<in> set (descendants ?F)" using c by (rule getJSXChildren_descendants)
    have ffc: "fragment_free c" and nf: "\<not> isJSXFragment c"
      using fragment_free_descendant[OF ff cn] by simp_all
    have sh: "M - (d + 1) = (M - 1) - d" by arith
    have a: "addJSXSymbol c s' doc (d + 1) M True = addJSXSymbol c s' doc d (M - 1) False"
      using builder_shift[of c doc] ffc sh by blast
    have e: "processJSXExpression c s' doc (d + 1) M True ?F =
             processJSXExpression c s' doc d (M - 1) False ?F"
    proof (rule processJSXExpression_shift)
      fix m s'' assume m: "m \<in> set (descendants c)"
      have "fragment_free m" using fragment_free_descendant[OF ffc m] by simp
      then show "addJSXSymbol m s'' doc (d + 1) M True = addJSXSymbol m s'' doc d (M - 1) False"
        using builder_shift[of m doc] sh by blast
    next
      show "(M \<le> d + 1) = (M - 1 \<le> d)" by arith
    qed
    show ?thesis
      using nf cn a e
      by (simp add: addJSXSymbol_body_def processFragmentChildren_body_def findChildPath_found)
  qed
  have "fold (addJSXSymbol_body ?F doc d M True) (getJSXChildren ?F) (new_jsx_symbol ?F doc) =
        fold (processFragmentChildren_body ?F doc d (M - 1) False) (getJSXChildren ?F)
          (new_jsx_symbol ?F doc)"
    by (rule fold_eq) (rule kid)
  then have "jsx_symbol ?F doc d M True =
             processFragmentChildren ?F (new_jsx_symbol ?F doc) doc d (M - 1) False"
    by (simp add: jsx_symbol_def processFragmentChildren_unfold)
  then show ?thesis
    by (simp add: hidden_run append_children_def new_jsx_symbol_def getJSXTagName_def
        getJSXSymbolKind_def node_loc_def Let_def)
qed

text \<open>
  Claim C5, as amended. Take a fragment written \<^verbatim>\<open><>...</>\<close> with no further fragment
  below it, which the builder meets as a literal child of a markup node that has a symbol
  (the loop of \<^verbatim>\<open>addJSXSymbol\<close>, one level below the node) or as a top-level markup node
  of a component body (the visitor of \<^verbatim>\<open>buildJSXTree\<close>, at depth 0), at a depth below the
  limit. With \<^verbatim>\<open>showFragments\<close> on, exactly one child is added to the parent symbol: the
  symbol \<open><Fragment>\<close>, whose children are the symbols that the hidden setting adds at
  that depth under a limit lower by one. With \<^verbatim>\<open>showFragments\<close> off, no symbol is made
  for the fragment: \<^verbatim>\<open>processFragmentChildren\<close> runs with the parent symbol at the depth
  the fragment would have had, and adds the symbols of its children to the parent: for a
  child that is an element, the symbol of that element at that depth. So the fragment
  takes one depth level when shown and none when hidden, and the tree below a shown
  fragment is the hidden tree cut one level earlier.
\<close>

theorem C5_fragment_toggle:
  assumes "fragment_free (JSXFragment loc kids)"
  shows "(JSXFragment loc kids \<in> set (getJSXChildren jsxPath) \<and> d + 1 < M \<longrightarrow>
            children (addJSXSymbol_body jsxPath document d M True
              (JSXFragment loc kids) jsxSymbol) =
              children jsxSymbol @
              [DocumentSymbol ''<Fragment>'' [] Namespace
                 (astRangeToVsCodeRange loc document) (astRangeToVsCodeRange loc document)
                 (hidden_children (JSXFragment loc kids) document (d + 1) (M - 1))] \<and>
            addJSXSymbol_body jsxPath document d M False (JSXFragment loc kids) jsxSymbol =
              processFragmentChildren (JSXFragment loc kids) jsxSymbol document (d + 1) M False \<and>
            children (addJSXSymbol_body jsxPath document d M False
              (JSXFragment loc kids) jsxSymbol) =
              children jsxSymbol @ hidden_children (JSXFragment loc kids) document (d + 1) M) \<and>
         (ident \<notin> set processedPaths \<and> isTopLevelJSX parents \<and> 0 < M \<longrightarrow>
            children (fst (buildJSXTree_visitor document M True
              (ident, JSXFragment loc kids, parents) (parentSymbol, processedPaths))) =
              children parentSymbol @
              [DocumentSymbol ''<Fragment>'' [] Namespace
                 (astRangeToVsCodeRange loc document) (astRangeToVsCodeRange loc document)
                 (hidden_children (JSXFragment loc kids) document 0 (M - 1))] \<and>
            fst (buildJSXTree_visitor document M False
              (ident, JSXFragment loc kids, parents) (parentSymbol, processedPaths)) =
              processFragmentChildren (JSXFragment loc kids) parentSymbol document 0 M False \<and>
            children (fst (buildJSXTree_visitor document M False
              (ident, JSXFragment loc kids, parents) (parentSymbol, processedPaths))) =
              children parentSymbol @ hidden_children (JSXFragment loc kids) document 0 M) \<and>
         (e < M \<longrightarrow>
            children (addJSXSymbol (JSXFragment loc kids) s document e M True) =
              children s @
              [DocumentSymbol ''<Fragment>'' [] Namespace
                 (astRangeToVsCodeRange loc document) (astRangeToVsCodeRange loc document)
                 (hidden_children (JSXFragment loc kids) document e (M - 1))]) \<and>
         children (processFragmentChildren (JSXFragment loc kids) s document e M False) =
           children s @ hidden_children (JSXFragment loc kids) document e M \<and>
         processFragmentChildren (JSXFragment loc kids) s document e M False =
           fold (processFragmentChildren_body (JSXFragment loc kids) document e M False)
             (getJSXChildren (JSXFragment loc kids)) s \<and>
         (\<forall>child \<in> set (getJSXChildren (JSXFragment loc kids)). isJSXElement child \<longrightarrow>
            children (processFragmentChildren_body (JSXFragment loc kids) document e M False
              child s) =
              children s @ (if e < M then [jsx_symbol child document e M False] else []))"
proof -
  let ?F = "JSXFragment loc kids"
  have element_child: "children (processFragmentChildren_body ?F document e M False child s) =
      children s @ (if e < M then [jsx_symbol child document e M False] else [])"
    if "child \<in> set (getJSXChildren ?F)" "isJSXElement child" for child
    using getJSXChildren_descendants[OF that(1)] that(2)
    by (simp add: processFragmentChildren_body_def findChildPath_found addJSXSymbol_children)
  have shown: "children (addJSXSymbol ?F t document x M True) =
      children t @
      [DocumentSymbol ''<Fragment>'' [] Namespace
         (astRangeToVsCodeRange loc document) (astRangeToVsCodeRange loc document)
         (hidden_children ?F document x (M - 1))]" if "x < M" for t x
    using that shown_fragment[OF assms that, of document] by (simp add: addJSXSymbol_children)
  have hidden: "children (processFragmentChildren ?F t document x M False) =
      children t @ hidden_children ?F document x M" for t x
    by (simp add: hidden_run)
  have child: "addJSXSymbol_body jsxPath document d M sf ?F jsxSymbol =
      (if sf then addJSXSymbol ?F jsxSymbol document (d + 1) M sf
       else processFragmentChildren ?F jsxSymbol document (d + 1) M sf)"
    if "?F \<in> set (getJSXChildren jsxPath)" for sf
    using getJSXChildren_descendants[OF that]
    by (simp add: addJSXSymbol_body_def isJSXElement_def isJSXFragment_def findChildPath_found)
  have top: "fst (buildJSXTree_visitor document M sf (ident, ?F, parents)
        (parentSymbol, processedPaths)) =
      (if sf then addJSXSymbol ?F parentSymbol document 0 M sf
       else processFragmentChildren ?F parentSymbol document 0 M sf)"
    if "ident \<notin> set processedPaths" "isTopLevelJSX parents" for sf
    using that by (simp add: buildJSXTree_visitor_def isJSXElement_def isJSXFragment_def)
  show ?thesis
    using shown[of "d + 1" jsxSymbol] shown[of 0 parentSymbol] shown[of e s] element_child
    by (auto simp: child top hidden processFragmentChildren_unfold[symmetric])
qed

text \<open>\<^verbatim>\<open>function Page() { return <><div><p/></div></> }\<close>\<close>

definition page_fragment :: node where
  "page_fragment = JSXFragment None [element ''div'' [element ''p'' []]]"

definition scenario_fragment :: node where
  "scenario_fragment = Other [Other [
     FunctionDeclaration None (Some ''Page'') []
       (BlockStatement [ReturnStatement (Some page_fragment)])]]"

definition depth2_hidden :: Configuration where
  "depth2_hidden =
     \<lparr>cfg_maxJSXDepth = Some 2, cfg_showFragments = Some False, cfg_showHooks = None\<rparr>"

text \<open>
  \<^verbatim>\<open>function Nested() { return <><><p/></></> }\<close>, and a limit of 5.
\<close>

definition scenario_nested_fragment :: node where
  "scenario_nested_fragment = Other [Other [
     FunctionDeclaration None (Some ''Nested'') []
       (BlockStatement [ReturnStatement (Some
          (JSXFragment None [JSXFragment None [element ''p'' []]]))])]]"

definition depth5 :: Configuration where
  "depth5 = \<lparr>cfg_maxJSXDepth = Some 5, cfg_showFragments = None, cfg_showHooks = None\<rparr>"

definition depth5_hidden :: Configuration where
  "depth5_hidden =
     \<lparr>cfg_maxJSXDepth = Some 5, cfg_showFragments = Some False, cfg_showHooks = None\<rparr>"

text \<open>
  The claim as written compares the two settings under the same limit; with a limit of 2
  the shown tree of \<open>Page\<close> has lost \<open>p\<close> and has as many symbols as the hidden one. And
  every fragment adds a wrapper of its own: far from the limit, the shown tree of
  \<open>Nested\<close> has two symbols more than the hidden one.
\<close>

theorem C5_fragment_toggle_counterexample:
  "getSymbolsFromDocument (\<lambda>_. Some scenario_fragment) depth2 [] =
     [DocumentSymbol ''Page'' ''Function Component'' Function zero_range zero_range
        [markup ''<Fragment>'' [markup ''div'' []]]] \<and>
   getSymbolsFromDocument (\<lambda>_. Some scenario_fragment) depth2_hidden [] =
     [DocumentSymbol ''Page'' ''Function Component'' Function zero_range zero_range
        [markup ''div'' [markup ''p'' []]]] \<and>
   getSymbolsFromDocument (\<lambda>_. Some scenario_nested_fragment) depth5 [] =
     [DocumentSymbol ''Nested'' ''Function Component'' Function zero_range zero_range
        [markup ''<Fragment>'' [markup ''<Fragment>'' [markup ''p'' []]]]] \<and>
   getSymbolsFromDocument (\<lambda>_. Some scenario_nested_fragment) depth5_hidden [] =
     [DocumentSymbol ''Nested'' ''Function Component'' Function zero_range zero_range
        [markup ''p'' []]]"
  by (simp add: scenario_fragment_def page_fragment_def depth2_hidden_def
      scenario_nested_fragment_def depth5_def depth5_hidden_def example_defs outline_eval)

theorem C5_fragment_toggle_witness:
  "fragment_free page_fragment \<and>
   page_fragment \<in> set (getJSXChildren (element ''main'' [page_fragment])) \<and>
   (0::int) + 1 < 3 \<and> (0::nat) \<notin> set [] \<and> isTopLevelJSX [ReturnStatement (Some page_fragment)] \<and>
   (0::int) < 2 \<and>
   hidden_children page_fragment [] 1 2 =
     [DocumentSymbol ''div'' [] Field zero_range zero_range []] \<and>
   hidden_children page_fragment [] 1 3 =
     [DocumentSymbol ''div'' [] Field zero_range zero_range
        [DocumentSymbol ''p'' [] Field zero_range zero_range []]] \<and>
   children (addJSXSymbol_body (element ''main'' [page_fragment]) [] 0 3 True
       page_fragment blank_symbol) =
     [DocumentSymbol ''<Fragment>'' [] Namespace zero_range zero_range
        [DocumentSymbol ''div'' [] Field zero_range zero_range []]] \<and>
   children (addJSXSymbol_body (element ''main'' [page_fragment]) [] 0 3 False
       page_fragment blank_symbol) =
     [DocumentSymbol ''div'' [] Field zero_range zero_range
        [DocumentSymbol ''p'' [] Field zero_range zero_range []]] \<and>
   children (fst (buildJSXTree_visitor [] 2 True
       (0, page_fragment, [ReturnStatement (Some page_fragment)]) (blank_symbol, []))) =
     [DocumentSymbol ''<Fragment>'' [] Namespace zero_range zero_range
        [DocumentSymbol ''div'' [] Field zero_range zero_range []]] \<and>
   children (fst (buildJSXTree_visitor [] 2 False
       (0, page_fragment, [ReturnStatement (Some page_fragment)]) (blank_symbol, []))) =
     [DocumentSymbol ''div'' [] Field zero_range zero_range
        [DocumentSymbol ''p'' [] Field zero_range zero_range []]] \<and>
   element ''div'' [element ''p'' []] \<in> set (getJSXChildren page_fragment) \<and>
   isJSXElement (element ''div'' [element ''p'' []]) \<and>
   children (processFragmentChildren_body page_fragment [] 0 2 False
       (element ''div'' [element ''p'' []]) blank_symbol) =
     [DocumentSymbol ''div'' [] Field zero_range zero_range
        [DocumentSymbol ''p'' [] Field zero_range zero_range []]]"
  using C5_fragment_toggle[of None "[element ''div'' [element ''p'' []]]"
      "element ''main'' [page_fragment]" 0 3 "[]" blank_symbol 0 "[]"
      "[ReturnStatement (Some page_fragment)]" blank_symbol 0 blank_symbol]
    C5_fragment_toggle[of None "[element ''div'' [element ''p'' []]]"
      "element ''main'' [page_fragment]" 0 2 "[]" blank_symbol 0 "[]"
      "[ReturnStatement (Some page_fragment)]" blank_symbol 0 blank_symbol]
  by (simp add: page_fragment_def blank_symbol_def fragment_free_def hidden_children_def
      example_defs outline_eval addJSXSymbol_body_def jsx_symbol_def)

end
